theory Spec2Isabelle
  imports Complex_Main
begin

section \<open>JavaScript strings\<close>

text \<open>
  A JavaScript string is a sequence of UTF-16 code units; a code unit is a natural number.
  Hangul syllables are single code units, so the Korean patterns of the sources are
  patterns over single elements of the list.
\<close>

type_synonym jsstring = "nat list"

definition str :: "string \<Rightarrow> jsstring" where
  "str s = map of_char s"

text \<open>
  The characters matched by the regular-expression class \<open>\s\<close>; \<open>String.prototype.trim\<close>
  strips the same characters.
\<close>

definition isWhiteSpace :: "nat \<Rightarrow> bool" where
  "isWhiteSpace c \<longleftrightarrow>
     c \<in> {9, 10, 11, 12, 13, 32, 160, 5760, 8232, 8233, 8239, 8287, 12288, 65279}
     \<or> (8192 \<le> c \<and> c \<le> 8202)"

definition trim :: "jsstring \<Rightarrow> jsstring" where
  "trim s = rev (dropWhile isWhiteSpace (rev (dropWhile isWhiteSpace s)))"

text \<open>
  \<open>String.prototype.toLowerCase\<close> is a built-in of the language, defined by the case
  mappings of Unicode. Every function that calls it takes it as the parameter \<open>lower\<close>,
  which stands for it.
\<close>

type_synonym lowercasing = "jsstring \<Rightarrow> jsstring"

text \<open>
  \<open>text.split(/\s+/)\<close>: the pieces between the maximal runs of white space. The empty
  string gives one empty piece; white space at either end gives an empty piece there.
  \<open>cur\<close> is the piece being read.
\<close>

function split_ws :: "jsstring \<Rightarrow> jsstring \<Rightarrow> jsstring list" where
  "split_ws cur [] = [cur]"
| "split_ws cur (c # cs) =
     (if isWhiteSpace c then cur # split_ws [] (dropWhile isWhiteSpace cs)
      else split_ws (cur @ [c]) cs)"
  by pat_completeness auto
termination
  by (relation "measure (\<lambda>(cur, cs). length cs)")
     (auto simp: le_imp_less_Suc length_dropWhile_le)

text \<open>\<open>text.split(/\s+/).filter(w => w.trim())\<close>: the empty string is falsy.\<close>

definition splitWords :: "jsstring \<Rightarrow> jsstring list" where
  "splitWords t = filter (\<lambda>w. trim w \<noteq> []) (split_ws [] t)"

section \<open>JavaScript sets\<close>

text \<open>
  A \<open>Set\<close> iterates in insertion order and holds no element twice: a list without
  duplicates, a new element going to the end.
\<close>

definition set_add :: "'a list \<Rightarrow> 'a \<Rightarrow> 'a list" where
  "set_add s x = (if x \<in> set s then s else s @ [x])"

definition new_Set :: "'a list \<Rightarrow> 'a list" where
  "new_Set xs = foldl set_add [] xs"

section \<open>Word matcher: the fast-path diff\<close>

record ('w, 'm) Diff =
  kept :: 'w
  removed :: 'w
  added :: 'w
  morphed :: 'm

record Morph =
  source :: jsstring
  target :: jsstring
  similarity :: real

definition findExactMatches ::
  "lowercasing \<Rightarrow> jsstring list \<Rightarrow> jsstring list \<Rightarrow> jsstring list" where
  "findExactMatches lower sourceWords targetWords =
     (let sourceSet = new_Set (map lower sourceWords);
          targetSet = new_Set (map lower targetWords)
      in foldl (\<lambda>matches word. if word \<in> set targetSet then set_add matches word else matches)
           [] sourceSet)"

definition analyzeDifference ::
  "lowercasing \<Rightarrow> jsstring \<Rightarrow> jsstring \<Rightarrow> (jsstring list, Morph list) Diff" where
  "analyzeDifference lower sourceText targetText =
     (let sourceWords = map lower (splitWords sourceText);
          targetWords = map lower (splitWords targetText);
          exactMatchesSet = findExactMatches lower sourceWords targetWords;
          removedSet = foldl (\<lambda>s w. if w \<notin> set exactMatchesSet then set_add s w else s)
                         [] sourceWords;
          addedSet = foldl (\<lambda>s w. if w \<notin> set exactMatchesSet then set_add s w else s)
                       [] targetWords
      in \<lparr> kept = exactMatchesSet, removed = removedSet, added = addedSet, morphed = [] \<rparr>)"

section \<open>Client: re-projection of the diff onto the rendered words\<close>

text \<open>
  An element of a list of the server's answer is a string, or an object whose word is its
  \<open>word\<close> property (absent: \<open>None\<close>): \<open>typeof w === 'string' ? w : w.word || ''\<close>.
\<close>

datatype entry = EStr jsstring | EObj "jsstring option"

fun entryWord :: "entry \<Rightarrow> jsstring" where
  "entryWord (EStr w) = w"
| "entryWord (EObj None) = []"
| "entryWord (EObj (Some w)) = w"

record WordRef =
  word :: jsstring
  index :: nat

record MorphRef =
  from_ref :: WordRef
  to_ref :: WordRef
  morph_similarity :: real

text \<open>
  The counters live in an object literal \<open>{}\<close>, which inherits from \<open>Object.prototype\<close>.
  Under an inherited property name the object holds a function or an object, never a
  number: \<open>(counts[w] || 0) + 1\<close> is a string there and \<open>counts[w] > 0\<close> is false,
  whatever was counted. Of these names only \<open>constructor\<close> and \<open>__proto__\<close> have no
  capital letter, so only they can be what the lowercasing of the language returns.
\<close>

definition objectPrototypeKey :: "jsstring \<Rightarrow> bool" where
  "objectPrototypeKey w \<longleftrightarrow>
     w \<in> {str ''constructor'', str ''__proto__'', str ''hasOwnProperty'',
          str ''isPrototypeOf'', str ''propertyIsEnumerable'', str ''toLocaleString'',
          str ''toString'', str ''valueOf'', str ''__defineGetter__'',
          str ''__defineSetter__'', str ''__lookupGetter__'', str ''__lookupSetter__''}"

text \<open>
  \<open>counts[word] = (counts[word] || 0) + 1\<close> and \<open>counts[word]--\<close>; a word never counted
  reads 0.
\<close>

definition increment ::
  "(jsstring \<Rightarrow> nat) \<Rightarrow> jsstring \<Rightarrow> jsstring \<Rightarrow> nat" where
  "increment counts k = counts(k := counts k + 1)"

definition decrement ::
  "(jsstring \<Rightarrow> nat) \<Rightarrow> jsstring \<Rightarrow> jsstring \<Rightarrow> nat" where
  "decrement counts k = counts(k := counts k - 1)"

definition countWords ::
  "lowercasing \<Rightarrow> entry list \<Rightarrow> jsstring \<Rightarrow> nat" where
  "countWords lower ws =
     foldl (\<lambda>counts w. increment counts (lower (entryWord w))) (\<lambda>_. 0) ws"

definition positiveCount ::
  "(jsstring \<Rightarrow> nat) \<Rightarrow> jsstring \<Rightarrow> bool" where
  "positiveCount counts w \<longleftrightarrow> \<not> objectPrototypeKey w \<and> counts w > 0"

text \<open>
  The \<open>forEach\<close> over the rendered words, from index \<open>i\<close> on: a word is taken while its
  counter is positive and its index is unused; the result is the list of references pushed
  and the set of used indices at the end.
\<close>

fun matchWords ::
  "lowercasing \<Rightarrow> (jsstring \<Rightarrow> nat) \<Rightarrow> nat set \<Rightarrow> nat \<Rightarrow> jsstring list \<Rightarrow> WordRef list \<times> nat set" where
  "matchWords lower counts used i [] = ([], used)"
| "matchWords lower counts used i (w # ws) =
     (let lowerWord = lower w
      in if positiveCount counts lowerWord \<and> i \<notin> used
         then (let (out, used') =
                     matchWords lower (decrement counts lowerWord) (insert i used) (Suc i) ws
               in (\<lparr> word = w, index = i \<rparr> # out, used'))
         else matchWords lower counts used (Suc i) ws)"

text \<open>\<open>findIndex\<close>: the first index whose element satisfies the predicate, \<open>None\<close> for -1.\<close>

fun findIndex :: "('a \<Rightarrow> bool) \<Rightarrow> 'a list \<Rightarrow> nat option" where
  "findIndex P [] = None"
| "findIndex P (x # xs) =
     (if P x then Some 0 else map_option Suc (findIndex P xs))"

text \<open>
  One element of \<open>morphed\<close>; \<open>None\<close> is an element that is not an object, which is
  skipped. A missing \<open>source\<close> or \<open>target\<close> is the empty string, a missing similarity 0.
\<close>

definition transformMorph ::
  "lowercasing \<Rightarrow> jsstring list \<Rightarrow> jsstring list \<Rightarrow> Morph option \<Rightarrow> MorphRef list" where
  "transformMorph lower fromWords toWords morph =
     (case morph of
        None \<Rightarrow> []
      | Some m \<Rightarrow>
          (let sourceWordLower = lower (source m);
               targetWordLower = lower (target m)
           in if sourceWordLower = [] \<or> targetWordLower = [] then []
              else (case (findIndex (\<lambda>w. lower w = sourceWordLower) fromWords,
                          findIndex (\<lambda>w. lower w = targetWordLower) toWords) of
                      (Some fromIdx, Some toIdx) \<Rightarrow>
                        [\<lparr> from_ref = \<lparr> word = fromWords ! fromIdx, index = fromIdx \<rparr>,
                           to_ref = \<lparr> word = toWords ! toIdx, index = toIdx \<rparr>,
                           morph_similarity = similarity m \<rparr>]
                    | _ \<Rightarrow> [])))"

text \<open>
  A field of the answer that is missing or not an array is \<open>None\<close>. \<open>keptRefs\<close> and
  \<open>addedRefs\<close> share the set of used indices of the target text; \<open>removedRefs\<close> has its
  own, over the source text.
\<close>

definition transformDiffData ::
  "lowercasing \<Rightarrow> (entry list option, Morph option list option) Diff \<Rightarrow> jsstring \<Rightarrow> jsstring
     \<Rightarrow> (WordRef list, MorphRef list) Diff" where
  "transformDiffData lower diffData fromText toText =
     (let fromWords = splitWords fromText;
          toWords = splitWords toText;
          (keptRefs, used1) =
             (case kept diffData of
                None \<Rightarrow> ([], {})
              | Some ks \<Rightarrow> matchWords lower (countWords lower ks) {} 0 toWords);
          (addedRefs, used2) =
             (case added diffData of
                None \<Rightarrow> ([], used1)
              | Some as \<Rightarrow> matchWords lower (countWords lower as) used1 0 toWords);
          removedRefs =
             (case removed diffData of
                None \<Rightarrow> []
              | Some rs \<Rightarrow> fst (matchWords lower (countWords lower rs) {} 0 fromWords));
          morphedRefs =
             (case morphed diffData of
                None \<Rightarrow> []
              | Some ms \<Rightarrow> concat (map (transformMorph lower fromWords toWords) ms))
      in \<lparr> kept = keptRefs, removed = removedRefs, added = addedRefs, morphed = morphedRefs \<rparr>)"

text \<open>
  Counting, for the statements about the re-projection: how often a field of the answer
  reports a lowercase word, how many references of a result carry it, how often it occurs
  in a rendered word list, and how many of these occurrences (the list starting at index
  \<open>i\<close>) have an index outside \<open>used\<close>.
\<close>

definition reportedCount ::
  "lowercasing \<Rightarrow> entry list option \<Rightarrow> jsstring \<Rightarrow> nat" where
  "reportedCount lower field w =
     (case field of
        None \<Rightarrow> 0
      | Some ws \<Rightarrow> length (filter (\<lambda>e. lower (entryWord e) = w) ws))"

definition assignedCount ::
  "lowercasing \<Rightarrow> WordRef list \<Rightarrow> jsstring \<Rightarrow> nat" where
  "assignedCount lower refs w = length (filter (\<lambda>r. lower (word r) = w) refs)"

definition occurrences ::
  "lowercasing \<Rightarrow> jsstring \<Rightarrow> jsstring list \<Rightarrow> nat" where
  "occurrences lower w ws = length (filter (\<lambda>x. lower x = w) ws)"

definition freeOccurrences ::
  "lowercasing \<Rightarrow> jsstring \<Rightarrow> nat set \<Rightarrow> nat \<Rightarrow> jsstring list \<Rightarrow> nat" where
  "freeOccurrences lower w used i ws =
     length (filter (\<lambda>(j, x). lower x = w \<and> j \<notin> used) (zip [i ..< i + length ws] ws))"

section \<open>JavaScript numbers\<close>

text \<open>
  A number is a real or one of the three special values. Finite arithmetic is exact (no
  rounding, no overflow) and zero has no sign; what a division by zero, a logarithm of
  zero or an operation on a special value gives is written out. Where the rounding of a
  product decides a result, in the selection of words to remove, it is modelled there.
\<close>

datatype jsnum = Fin real | PosInf | NegInf | NaN

fun jsneg :: "jsnum \<Rightarrow> jsnum" where
  "jsneg (Fin a) = Fin (- a)"
| "jsneg PosInf = NegInf"
| "jsneg NegInf = PosInf"
| "jsneg NaN = NaN"

fun jsadd :: "jsnum \<Rightarrow> jsnum \<Rightarrow> jsnum" where
  "jsadd NaN _ = NaN"
| "jsadd _ NaN = NaN"
| "jsadd PosInf NegInf = NaN"
| "jsadd NegInf PosInf = NaN"
| "jsadd PosInf _ = PosInf"
| "jsadd _ PosInf = PosInf"
| "jsadd NegInf _ = NegInf"
| "jsadd _ NegInf = NegInf"
| "jsadd (Fin a) (Fin b) = Fin (a + b)"

definition jssub :: "jsnum \<Rightarrow> jsnum \<Rightarrow> jsnum" where
  "jssub a b = jsadd a (jsneg b)"

fun jsmul :: "jsnum \<Rightarrow> jsnum \<Rightarrow> jsnum" where
  "jsmul NaN _ = NaN"
| "jsmul _ NaN = NaN"
| "jsmul (Fin a) (Fin b) = Fin (a * b)"
| "jsmul (Fin a) PosInf = (if a = 0 then NaN else if 0 < a then PosInf else NegInf)"
| "jsmul (Fin a) NegInf = (if a = 0 then NaN else if 0 < a then NegInf else PosInf)"
| "jsmul PosInf (Fin b) = (if b = 0 then NaN else if 0 < b then PosInf else NegInf)"
| "jsmul NegInf (Fin b) = (if b = 0 then NaN else if 0 < b then NegInf else PosInf)"
| "jsmul PosInf PosInf = PosInf"
| "jsmul PosInf NegInf = NegInf"
| "jsmul NegInf PosInf = NegInf"
| "jsmul NegInf NegInf = PosInf"

fun jsdiv :: "jsnum \<Rightarrow> jsnum \<Rightarrow> jsnum" where
  "jsdiv NaN _ = NaN"
| "jsdiv _ NaN = NaN"
| "jsdiv (Fin a) (Fin b) =
     (if b \<noteq> 0 then Fin (a / b)
      else if 0 < a then PosInf else if a < 0 then NegInf else NaN)"
| "jsdiv (Fin a) _ = Fin 0"
| "jsdiv PosInf (Fin b) = (if 0 \<le> b then PosInf else NegInf)"
| "jsdiv NegInf (Fin b) = (if 0 \<le> b then NegInf else PosInf)"
| "jsdiv _ _ = NaN"

text \<open>\<open><\<close>; every comparison with \<open>NaN\<close> is false.\<close>

fun jslt :: "jsnum \<Rightarrow> jsnum \<Rightarrow> bool" where
  "jslt NaN _ = False"
| "jslt _ NaN = False"
| "jslt PosInf _ = False"
| "jslt _ PosInf = True"
| "jslt _ NegInf = False"
| "jslt NegInf _ = True"
| "jslt (Fin a) (Fin b) = (a < b)"

definition jsgt :: "jsnum \<Rightarrow> jsnum \<Rightarrow> bool" where
  "jsgt a b = jslt b a"

definition jsle :: "jsnum \<Rightarrow> jsnum \<Rightarrow> bool" where
  "jsle a b = (a \<noteq> NaN \<and> b \<noteq> NaN \<and> \<not> jslt b a)"

definition jsge :: "jsnum \<Rightarrow> jsnum \<Rightarrow> bool" where
  "jsge a b = jsle b a"

text \<open>\<open>===\<close> on numbers.\<close>

definition jseq :: "jsnum \<Rightarrow> jsnum \<Rightarrow> bool" where
  "jseq a b = (a \<noteq> NaN \<and> a = b)"

text \<open>\<open>Math.max\<close> and \<open>Math.min\<close> of two numbers, and of a spread list.\<close>

definition jsmax :: "jsnum \<Rightarrow> jsnum \<Rightarrow> jsnum" where
  "jsmax a b = (if a = NaN \<or> b = NaN then NaN else if jslt a b then b else a)"

definition jsmin :: "jsnum \<Rightarrow> jsnum \<Rightarrow> jsnum" where
  "jsmin a b = (if a = NaN \<or> b = NaN then NaN else if jslt b a then b else a)"

definition Math_max :: "jsnum list \<Rightarrow> jsnum" where
  "Math_max xs = foldl jsmax NegInf xs"

definition Math_min :: "jsnum list \<Rightarrow> jsnum" where
  "Math_min xs = foldl jsmin PosInf xs"

fun Math_abs :: "jsnum \<Rightarrow> jsnum" where
  "Math_abs (Fin a) = Fin \<bar>a\<bar>"
| "Math_abs PosInf = PosInf"
| "Math_abs NegInf = PosInf"
| "Math_abs NaN = NaN"

text \<open>\<open>Math.round\<close> rounds to the nearest integer, a half upwards.\<close>

fun Math_round :: "jsnum \<Rightarrow> jsnum" where
  "Math_round (Fin a) = Fin (of_int \<lfloor>a + 1 / 2\<rfloor>)"
| "Math_round x = x"

fun Math_log :: "jsnum \<Rightarrow> jsnum" where
  "Math_log (Fin a) = (if 0 < a then Fin (ln a) else if a = 0 then NegInf else NaN)"
| "Math_log PosInf = PosInf"
| "Math_log _ = NaN"

text \<open>\<open>x || 0\<close>: zero and \<open>NaN\<close> are falsy.\<close>

definition or_zero :: "jsnum \<Rightarrow> jsnum" where
  "or_zero x = (if x = NaN \<or> x = Fin 0 then Fin 0 else x)"

definition finite_num :: "jsnum \<Rightarrow> bool" where
  "finite_num x = (case x of Fin _ \<Rightarrow> True | _ \<Rightarrow> False)"

section \<open>Text processor\<close>

text \<open>
  The sentence and word tokenizers come from the library \<open>natural\<close>, outside the
  repository. Every function that tokenizes takes them as parameters: \<open>sentTok\<close> is
  \<open>sentenceTokenizer.tokenize\<close>, \<open>wordTok\<close> is \<open>tokenizer.tokenize\<close>.
\<close>

type_synonym tokenizer = "jsstring \<Rightarrow> jsstring list"

text \<open>
  \<open>text.split(/\n\n+/)\<close>: the pieces between the maximal runs of two or more line
  feeds; a single line feed stays inside its piece.
\<close>

function split_blank :: "jsstring \<Rightarrow> jsstring \<Rightarrow> jsstring list" where
  "split_blank cur [] = [cur]"
| "split_blank cur [c] = [cur @ [c]]"
| "split_blank cur (c # d # cs) =
     (if c = 10 \<and> d = 10 then cur # split_blank [] (dropWhile (\<lambda>x. x = 10) cs)
      else split_blank (cur @ [c]) (d # cs))"
  by pat_completeness auto
termination
  by (relation "measure (\<lambda>(cur, cs). length cs)")
     (auto simp: le_imp_less_Suc length_dropWhile_le less_Suc_eq_le le_SucI)

definition parseParagraphs :: "jsstring \<Rightarrow> jsstring list" where
  "parseParagraphs t = filter (\<lambda>p. length p > 0) (map trim (split_blank [] t))"

definition tokenizeSentences :: "tokenizer \<Rightarrow> jsstring \<Rightarrow> jsstring list" where
  "tokenizeSentences sentTok t = filter (\<lambda>s. length (trim s) > 0) (sentTok t)"

text \<open>
  The class of \<open>removeSpecialChars\<close>: the ASCII letters and digits and the Hangul
  syllables, which are the code units 44032 (U+AC00) to 55203 (U+D7A3).
\<close>

definition isWordChar :: "nat \<Rightarrow> bool" where
  "isWordChar c \<longleftrightarrow>
     (97 \<le> c \<and> c \<le> 122) \<or> (65 \<le> c \<and> c \<le> 90) \<or> (44032 \<le> c \<and> c \<le> 55203)
     \<or> (48 \<le> c \<and> c \<le> 57)"

definition tokenizeWords ::
  "lowercasing \<Rightarrow> tokenizer \<Rightarrow> jsstring \<Rightarrow> bool \<Rightarrow> bool \<Rightarrow> jsstring list" where
  "tokenizeWords lower wordTok t lowercase removeSpecialChars =
     (let words = wordTok t;
          words = (if removeSpecialChars then filter (list_ex isWordChar) words else words);
          words = (if lowercase then map lower words else words)
      in words)"

datatype PosTag = NOUN | VERB | ADJ | ADV | ADP | DET | CONJ | NUM

definition isAsciiLetter :: "nat \<Rightarrow> bool" where
  "isAsciiLetter c \<longleftrightarrow> (97 \<le> c \<and> c \<le> 122) \<or> (65 \<le> c \<and> c \<le> 90)"

definition isDigit :: "nat \<Rightarrow> bool" where
  "isDigit c \<longleftrightarrow> 48 \<le> c \<and> c \<le> 57"

text \<open>The thirteen syllables of the class \<open>koreanParticles\<close>, as code units.\<close>

definition koreanParticle :: "nat \<Rightarrow> bool" where
  "koreanParticle c \<longleftrightarrow>
     c \<in> {51008, 45716, 51060, 44032, 51012, 47484, 50640, 44172, 49436, 50752, 44284,
          46020, 47564}"

text \<open>
  The eight alternatives of the pattern \<open>koreanEndings\<close>, as code units; the pattern
  matches a word that ends with one of them.
\<close>

definition koreanEndings :: "jsstring list" where
  "koreanEndings =
     [[45796], [50836], [12610, 45768, 45796], [49845, 45768, 45796], [49464, 50836],
      [54616, 45796], [46104, 45796], [51060, 45796]]"

definition endsWith :: "jsstring \<Rightarrow> jsstring \<Rightarrow> bool" where
  "endsWith w s \<longleftrightarrow> length s \<le> length w \<and> drop (length w - length s) w = s"

definition conjunctions :: "jsstring list" where
  "conjunctions = map str [''and'', ''or'', ''but'', ''yet'', ''so'', ''for'', ''nor'']"

definition prepositions :: "jsstring list" where
  "prepositions = map str [''in'', ''on'', ''at'', ''by'', ''with'', ''from'', ''to'', ''of'']"

definition determiners :: "jsstring list" where
  "determiners = map str [''a'', ''an'', ''the'', ''this'', ''that'', ''these'', ''those'']"

definition estimatePOS :: "lowercasing \<Rightarrow> jsstring \<Rightarrow> PosTag" where
  "estimatePOS lower w =
     (let lowerWord = lower w
      in if w \<noteq> [] \<and> list_all isAsciiLetter w then
           (if lowerWord \<in> set conjunctions then CONJ
            else if lowerWord \<in> set prepositions then ADP
            else if lowerWord \<in> set determiners then DET
            else if endsWith lowerWord (str ''ly'') then ADV
            else if endsWith lowerWord (str ''ing'') \<or> endsWith lowerWord (str ''ed'') then VERB
            else NOUN)
         else if list_ex koreanParticle w then ADP
         else if list_ex (endsWith w) koreanEndings then VERB
         else if w \<noteq> [] \<and> list_all isDigit w then NUM
         else NOUN)"

record Word =
  word_text :: jsstring
  position :: nat
  sentence :: nat
  paragraph_index :: nat
  pos :: PosTag

record Sentence =
  sentence_text :: jsstring
  sentence_index :: nat
  sentence_paragraph :: nat
  sentence_wordCount :: nat

record Metadata =
  paragraphCount :: nat
  sentenceCount :: nat
  wordCount :: nat
  charCount :: nat

record StructuredText =
  originalText :: jsstring
  paragraphs :: "jsstring list"
  sentences :: "Sentence list"
  words :: "Word list"
  metadata :: Metadata

text \<open>
  The three nested \<open>forEach\<close> loops of \<open>structureText\<close>, innermost first. The state
  they share is \<open>wordPosition\<close>, \<open>sentenceIndex\<close>, \<open>allSentences\<close> and \<open>allWords\<close>.
\<close>

type_synonym structure_state = "nat \<times> nat \<times> Sentence list \<times> Word list"

definition pushWord ::
  "lowercasing \<Rightarrow> nat \<Rightarrow> nat \<Rightarrow> nat \<times> Word list \<Rightarrow> jsstring \<Rightarrow> nat \<times> Word list" where
  "pushWord lower sentenceIndex paragraphIndex st w =
     (let (wordPosition, allWords) = st
      in (wordPosition + 1,
          allWords @ [\<lparr> word_text = w, position = wordPosition, sentence = sentenceIndex,
                        paragraph_index = paragraphIndex, pos = estimatePOS lower w \<rparr>]))"

definition pushSentence ::
  "lowercasing \<Rightarrow> tokenizer \<Rightarrow> nat \<Rightarrow> structure_state \<Rightarrow> jsstring \<Rightarrow> structure_state" where
  "pushSentence lower wordTok paragraphIndex st s =
     (let (wordPosition, sentenceIndex, allSentences, allWords) = st;
          ws = tokenizeWords lower wordTok s False False;
          (wordPosition', allWords') =
             foldl (pushWord lower sentenceIndex paragraphIndex) (wordPosition, allWords) ws
      in (wordPosition', sentenceIndex + 1,
          allSentences @ [\<lparr> sentence_text = s, sentence_index = sentenceIndex,
                             sentence_paragraph = paragraphIndex,
                             sentence_wordCount = length ws \<rparr>],
          allWords'))"

definition pushParagraph ::
  "lowercasing \<Rightarrow> tokenizer \<Rightarrow> tokenizer \<Rightarrow> structure_state \<Rightarrow> nat \<times> jsstring \<Rightarrow> structure_state" where
  "pushParagraph lower sentTok wordTok st ip =
     (let (paragraphIndex, paragraph) = ip
      in foldl (pushSentence lower wordTok paragraphIndex) st (tokenizeSentences sentTok paragraph))"

definition structureText ::
  "lowercasing \<Rightarrow> tokenizer \<Rightarrow> tokenizer \<Rightarrow> jsstring \<Rightarrow> StructuredText" where
  "structureText lower sentTok wordTok t =
     (let ps = parseParagraphs t;
          (wordPosition, sentenceIndex, allSentences, allWords) =
             foldl (pushParagraph lower sentTok wordTok) (0, 0, [], []) (zip [0 ..< length ps] ps)
      in \<lparr> originalText = t, paragraphs = ps, sentences = allSentences, words = allWords,
           metadata = \<lparr> paragraphCount = length ps, sentenceCount = length allSentences,
                        wordCount = length allWords, charCount = length t \<rparr> \<rparr>)"

section \<open>TF-IDF engine\<close>

definition KOREAN_STOPWORDS :: "jsstring list" where
  "KOREAN_STOPWORDS =
    [[51008], [45716], [51060], [44032],
     [51012], [47484], [50640], [51032],
     [50752], [44284], [46020], [47196],
     [51004, 47196], [47564], [50640, 49436], [44760, 49436],
     [48512, 53552], [44620, 51648], [54620], [44536],
     [51200], [51060, 47088], [44536, 47088], [51200, 47088],
     [44163], [49688], [46321], [48143],
     [46608, 45716], [44536, 47532, 44256], [54616, 51648, 47564], [44536, 47084, 45208],
     [44536, 47000, 49436]]"

definition ENGLISH_STOPWORDS :: "jsstring list" where
  "ENGLISH_STOPWORDS = map str
    [''the'', ''a'', ''an'', ''and'', ''or'', ''but'', ''in'', ''on'', ''at'', ''to'',
     ''for'', ''of'', ''with'', ''by'', ''from'', ''as'', ''is'', ''was'', ''are'',
     ''be'', ''been'', ''have'', ''has'', ''had'', ''do'', ''does'', ''did'',
     ''will'', ''would'', ''should'', ''could'', ''may'', ''might'', ''must'',
     ''this'', ''that'', ''these'', ''those'', ''i'', ''you'', ''he'', ''she'',
     ''it'', ''we'', ''they'', ''my'', ''your'', ''his'', ''her'', ''its'', ''our'', ''their'']"

definition ALL_STOPWORDS :: "jsstring list" where
  "ALL_STOPWORDS = KOREAN_STOPWORDS @ ENGLISH_STOPWORDS"

definition isStopword :: "lowercasing \<Rightarrow> jsstring \<Rightarrow> bool" where
  "isStopword lower w \<longleftrightarrow> lower w \<in> set ALL_STOPWORDS"

definition calculateTF :: "jsstring \<Rightarrow> jsstring list \<Rightarrow> jsnum" where
  "calculateTF w ws =
     (let wordCount = length (filter (\<lambda>x. x = w) ws);
          totalWords = length ws
      in if totalWords = 0 then Fin 0
         else jsdiv (Fin (real wordCount)) (Fin (real totalWords)))"

definition calculateIDF :: "jsstring \<Rightarrow> jsstring list list \<Rightarrow> jsnum" where
  "calculateIDF w documents =
     (let totalDocuments = length documents;
          documentsWithWord = length (filter (\<lambda>doc. w \<in> set doc) documents)
      in if documentsWithWord = 0 then Fin 0
         else Math_log (jsdiv (Fin (real totalDocuments)) (Fin (real documentsWithWord))))"

definition calculateTFIDF ::
  "jsstring \<Rightarrow> jsstring list \<Rightarrow> jsstring list list \<Rightarrow> jsnum" where
  "calculateTFIDF w documentWords allDocuments =
     jsmul (calculateTF w documentWords) (calculateIDF w allDocuments)"

definition splitIntoDocuments ::
  "lowercasing \<Rightarrow> tokenizer \<Rightarrow> jsstring \<Rightarrow> jsstring list list" where
  "splitIntoDocuments lower wordTok t =
     map (\<lambda>p. tokenizeWords lower wordTok p True False) (parseParagraphs t)"

text \<open>
  A value of the TF-IDF map. \<open>normalizedTfidf\<close> is absent (\<open>None\<close>) until
  \<open>normalizeTFIDF\<close> sets it. The map itself is a \<open>Map\<close>: the list of its entries in
  insertion order, the keys being distinct.
\<close>

record TfidfInfo =
  info_word :: jsstring
  tf :: jsnum
  idf :: jsnum
  tfidf :: jsnum
  frequency :: nat
  normalizedTfidf :: "jsnum option"

type_synonym tfidf_map = "(jsstring \<times> TfidfInfo) list"

definition computeTFIDFForText ::
  "lowercasing \<Rightarrow> tokenizer \<Rightarrow> jsstring \<Rightarrow> bool \<Rightarrow> nat \<Rightarrow> tfidf_map" where
  "computeTFIDFForText lower wordTok t removeStopwords minWordLength =
     (let documents = splitIntoDocuments lower wordTok t;
          allWords = tokenizeWords lower wordTok t True False;
          uniqueWords = new_Set allWords;
          uniqueWords = (if removeStopwords then filter (\<lambda>w. \<not> isStopword lower w) uniqueWords
                         else uniqueWords);
          uniqueWords = filter (\<lambda>w. length w \<ge> minWordLength) uniqueWords
      in map (\<lambda>w. let tf = calculateTF w allWords;
                       idf = calculateIDF w documents
                   in (w, \<lparr> info_word = w, tf = tf, idf = idf, tfidf = jsmul tf idf,
                            frequency = length (filter (\<lambda>x. x = w) allWords),
                            normalizedTfidf = None \<rparr>))
           uniqueWords)"

definition normalizeTFIDF :: "tfidf_map \<Rightarrow> tfidf_map" where
  "normalizeTFIDF tfidfMap =
     (let scores = map (\<lambda>(k, item). tfidf item) tfidfMap;
          maxScore = Math_max scores;
          minScore = Math_min scores;
          range = jssub maxScore minScore
      in if jseq range (Fin 0)
         then map (\<lambda>(k, item). (k, item\<lparr> normalizedTfidf := Some (Fin (1 / 2)) \<rparr>)) tfidfMap
         else map (\<lambda>(k, item).
                     (k, item\<lparr> normalizedTfidf := Some (jsdiv (jssub (tfidf item) minScore) range) \<rparr>))
                tfidfMap)"

section \<open>Priority calculator\<close>

definition POS_WEIGHTS :: "PosTag \<Rightarrow> real" where
  "POS_WEIGHTS p =
     (case p of
        NOUN \<Rightarrow> 1
      | VERB \<Rightarrow> 9 / 10
      | NUM \<Rightarrow> 85 / 100
      | ADJ \<Rightarrow> 6 / 10
      | ADV \<Rightarrow> 4 / 10
      | ADP \<Rightarrow> 2 / 10
      | DET \<Rightarrow> 1 / 10
      | CONJ \<Rightarrow> 5 / 100)"

text \<open>\<open>POS_WEIGHTS[pos] || 0.5\<close>: a weight of zero would be falsy.\<close>

definition calculatePOSScore :: "PosTag \<Rightarrow> real" where
  "calculatePOSScore p = (if POS_WEIGHTS p = 0 then 1 / 2 else POS_WEIGHTS p)"

record EnrichedWord = Word +
  word_tfidf :: jsnum
  word_normalizedTfidf :: jsnum

record PriorityWord = EnrichedWord +
  priority :: jsnum
  priorityGroup :: string

definition calculateSyntaxScore ::
  "EnrichedWord \<Rightarrow> EnrichedWord list \<Rightarrow> real" where
  "calculateSyntaxScore w sentenceWords =
     (let sentenceLength = length sentenceWords;
          relativePosition = jsdiv (Fin (real (position w))) (Fin (real sentenceLength))
      in if pos w = NOUN then
           (if jslt relativePosition (Fin (3 / 10)) then 1
            else if jsgt relativePosition (Fin (5 / 10)) then 8 / 10
            else 6 / 10)
         else if pos w = VERB then 9 / 10
         else if pos w = ADJ \<or> pos w = ADV then 3 / 10
         else if pos w = ADP \<or> pos w = CONJ then 1 / 10
         else 5 / 10)"

definition calculateLocationScore :: "real \<Rightarrow> real \<Rightarrow> jsnum" where
  "calculateLocationScore position' sentenceLength =
     (if sentenceLength \<le> 1 then Fin 1
      else jssub (Fin 1) (jsdiv (Fin position') (Fin sentenceLength)))"

text \<open>
  The four scores \<open>calculateWordPriority\<close> computes for a word: \<open>tfidfScore\<close>,
  \<open>posScore\<close>, \<open>syntaxScore\<close> and \<open>locationScore\<close>, each by its own definition, then
  their weighted sum, clamped.
\<close>

definition tfidfScore :: "EnrichedWord \<Rightarrow> jsnum" where
  "tfidfScore w = or_zero (word_normalizedTfidf w)"

definition locationScore :: "EnrichedWord \<Rightarrow> nat \<Rightarrow> jsnum" where
  "locationScore w sentenceLength =
     calculateLocationScore (real (position w)) (real sentenceLength)"

definition calculateWordPriority ::
  "EnrichedWord \<Rightarrow> EnrichedWord list \<Rightarrow> nat \<Rightarrow> jsnum" where
  "calculateWordPriority w sentenceWords sentenceLength =
     (let posScore = calculatePOSScore (pos w);
          syntaxScore = calculateSyntaxScore w sentenceWords;
          priority' =
            jsadd (jsadd (jsadd (jsmul (Fin (4 / 10)) (tfidfScore w))
                                (Fin (3 / 10 * posScore)))
                         (Fin (2 / 10 * syntaxScore)))
                  (jsmul (Fin (1 / 10)) (locationScore w sentenceLength))
      in jsmax (Fin 0) (jsmin (Fin 1) priority'))"

definition getPriorityGroup :: "jsnum \<Rightarrow> string" where
  "getPriorityGroup p =
     (if jslt p (Fin (3 / 10)) then ''immediate''
      else if jslt p (Fin (6 / 10)) then ''middle''
      else ''late'')"

text \<open>
  \<open>wordsBySentence\<close>: the words grouped under their sentence index, each group in the
  order of the words; a sentence index without a group reads the empty list.
\<close>

definition groupBySentence ::
  "EnrichedWord list \<Rightarrow> nat \<Rightarrow> EnrichedWord list" where
  "groupBySentence ws = foldl (\<lambda>g w. g(sentence w := g (sentence w) @ [w])) (\<lambda>_. []) ws"

text \<open>
  \<open>sort((a, b) => a.priority - b.priority)\<close>. The sort is stable: an element is placed
  before the first one that the comparator puts strictly after it.
\<close>

fun insertByPriority ::
  "PriorityWord \<Rightarrow> PriorityWord list \<Rightarrow> PriorityWord list" where
  "insertByPriority x [] = [x]"
| "insertByPriority x (y # ys) =
     (if jslt (jssub (priority x) (priority y)) (Fin 0) then x # y # ys
      else y # insertByPriority x ys)"

definition sortByPriority :: "PriorityWord list \<Rightarrow> PriorityWord list" where
  "sortByPriority ws = foldl (\<lambda>acc x. insertByPriority x acc) [] ws"

text \<open>
  \<open>tfidfInfo ? tfidfInfo.tfidf : 0\<close> and the same for \<open>normalizedTfidf\<close>. A value
  without the property reads \<open>undefined\<close>, which is falsy as \<open>NaN\<close> is.
\<close>

definition enrichWords ::
  "lowercasing \<Rightarrow> tfidf_map \<Rightarrow> Word list \<Rightarrow> EnrichedWord list" where
  "enrichWords lower normalizedTfidfMap ws =
     map (\<lambda>w. let tfidfInfo = map_of normalizedTfidfMap (lower (word_text w))
               in Word.extend w
                    \<lparr> word_tfidf = (case tfidfInfo of Some i \<Rightarrow> tfidf i | None \<Rightarrow> Fin 0),
                      word_normalizedTfidf =
                        (case tfidfInfo of
                           Some i \<Rightarrow> (case normalizedTfidf i of Some n \<Rightarrow> n | None \<Rightarrow> NaN)
                         | None \<Rightarrow> Fin 0) \<rparr>)
       ws"

definition withPriority ::
  "(nat \<Rightarrow> EnrichedWord list) \<Rightarrow> EnrichedWord \<Rightarrow> PriorityWord" where
  "withPriority wordsBySentence w =
     (let sentenceWords = wordsBySentence (sentence w);
          sentenceLength = length sentenceWords;
          p = calculateWordPriority w sentenceWords sentenceLength
      in EnrichedWord.extend w \<lparr> priority = p, priorityGroup = getPriorityGroup p \<rparr>)"

definition calculatePrioritiesForText ::
  "lowercasing \<Rightarrow> tokenizer \<Rightarrow> tokenizer \<Rightarrow> jsstring \<Rightarrow> PriorityWord list" where
  "calculatePrioritiesForText lower sentTok wordTok t =
     (let structured = structureText lower sentTok wordTok t;
          tfidfMap = computeTFIDFForText lower wordTok t True 2;
          normalizedTfidfMap = normalizeTFIDF tfidfMap;
          enrichedWords = enrichWords lower normalizedTfidfMap (words structured);
          wordsBySentence = groupBySentence enrichedWords;
          wordsWithPriority = map (withPriority wordsBySentence) enrichedWords
      in sortByPriority wordsWithPriority)"

section \<open>Doubles and the selection of words to remove\<close>

text \<open>
  \<open>selectWordsToRemove\<close> floors a product of two doubles, which is the exact product
  rounded to the nearest double. Here the rounding is modelled. A finite double is an
  integer mantissa of magnitude below \<open>2^53\<close> times a power of two with an exponent from
  -1074 to 971; the same number may be written with several mantissas.
\<close>

datatype double = Double int int | Infinity | NegInfinity | NotANumber

definition pow2 :: "int \<Rightarrow> real" where
  "pow2 e = (if 0 \<le> e then 2 ^ nat e else 1 / 2 ^ nat (- e))"



text \<open>The number of binary digits of a natural number.\<close>

fun bitLength :: "nat \<Rightarrow> nat" where
  "bitLength 0 = 0"
| "bitLength (Suc n) = Suc (bitLength (Suc n div 2))"

text \<open>
  \<open>a\<close> divided by \<open>2^k\<close> and rounded to the nearest whole number, a tie going to the
  even one.
\<close>

definition roundQuotient :: "nat \<Rightarrow> nat \<Rightarrow> nat" where
  "roundQuotient a k =
     (let q = a div 2 ^ k; r = a mod 2 ^ k
      in if 2 * r > 2 ^ k \<or> (2 * r = 2 ^ k \<and> odd q) then q + 1 else q)"

text \<open>
  The magnitude \<open>a\<close> times \<open>2^e\<close>, rounded to 53 binary digits: the digits of \<open>a\<close>
  beyond the 53rd are rounded away. With an exponent of -1074 or more, as every product
  of a whole number and a double has, the result is a multiple of the smallest double.
\<close>

definition roundedMagnitude :: "nat \<Rightarrow> int \<Rightarrow> real" where
  "roundedMagnitude a e =
     (let k = bitLength a - 53
      in real (roundQuotient a k) * pow2 (e + int k))"

text \<open>The nearest double of \<open>M\<close> times \<open>2^e\<close>; a magnitude of \<open>2^1024\<close> or more overflows.\<close>

definition roundToDouble :: "int \<Rightarrow> int \<Rightarrow> jsnum" where
  "roundToDouble M e =
     (let v = roundedMagnitude (nat \<bar>M\<bar>) e
      in if v \<ge> 2 ^ 1024 then (if M < 0 then NegInf else PosInf)
         else Fin (if M < 0 then - v else v))"

text \<open>
  \<open>totalWords * targetCompressionRate\<close>: the length of an array is a whole number below
  \<open>2^32\<close>, which is a double with exponent 0.
\<close>

fun lengthTimes :: "nat \<Rightarrow> double \<Rightarrow> jsnum" where
  "lengthTimes n (Double m e) = roundToDouble (int n * m) e"
| "lengthTimes n Infinity = (if n = 0 then NaN else PosInf)"
| "lengthTimes n NegInfinity = (if n = 0 then NaN else NegInf)"
| "lengthTimes n NotANumber = NaN"

fun Math_floor :: "jsnum \<Rightarrow> jsnum" where
  "Math_floor (Fin a) = Fin (of_int \<lfloor>a\<rfloor>)"
| "Math_floor x = x"

text \<open>
  \<open>totalWords - targetWordCount\<close>. Here \<open>targetWordCount\<close> comes from \<open>Math.floor\<close>, so
  it is whole or one of the special values; a whole number is its own floor, and the
  result is the exact difference, rounded to the nearest double.
\<close>

fun lengthMinus :: "nat \<Rightarrow> jsnum \<Rightarrow> jsnum" where
  "lengthMinus n (Fin t) = roundToDouble (int n - \<lfloor>t\<rfloor>) 0"
| "lengthMinus n PosInf = NegInf"
| "lengthMinus n NegInf = PosInf"
| "lengthMinus n NaN = NaN"

text \<open>
  An argument of \<open>slice\<close> as an index into a list of length \<open>len\<close>: \<open>NaN\<close> is 0, the
  fraction is cut off, a negative index counts from the end, and the result is kept
  between 0 and \<open>len\<close>.
\<close>

definition sliceIndex :: "nat \<Rightarrow> jsnum \<Rightarrow> nat" where
  "sliceIndex len x =
     (case x of
        NaN \<Rightarrow> 0
      | PosInf \<Rightarrow> len
      | NegInf \<Rightarrow> 0
      | Fin a \<Rightarrow>
          (let i = (if 0 \<le> a then \<lfloor>a\<rfloor> else \<lceil>a\<rceil>)
           in if i < 0 then nat (max (int len + i) 0) else min (nat i) len))"

text \<open>\<open>slice(start, end)\<close> and \<open>slice(start)\<close>.\<close>

definition slice :: "'a list \<Rightarrow> jsnum \<Rightarrow> jsnum \<Rightarrow> 'a list" where
  "slice xs start end' =
     (let k = sliceIndex (length xs) start; e = sliceIndex (length xs) end'
      in take (e - k) (drop k xs))"

definition slice_from :: "'a list \<Rightarrow> jsnum \<Rightarrow> 'a list" where
  "slice_from xs start = drop (sliceIndex (length xs) start) xs"

record 'a Selection =
  toKeep :: "'a list"
  toRemove :: "'a list"

definition selectWordsToRemove :: "'a list \<Rightarrow> double \<Rightarrow> 'a Selection" where
  "selectWordsToRemove ws targetCompressionRate =
     (let totalWords = length ws;
          targetWordCount = Math_floor (lengthTimes totalWords targetCompressionRate);
          removeCount = lengthMinus totalWords targetWordCount
      in \<lparr> toKeep = slice_from ws removeCount, toRemove = slice ws (Fin 0) removeCount \<rparr>)"

section \<open>State manager\<close>

text \<open>
  A listener is a callback; the model names it by a number and records what it is called
  with. What a callback does when called is outside the model.
\<close>

text \<open>The data of a level change is the old level and the new one.\<close>

datatype event_name = EvLevelChange | EvTextChange | EvAnimationStateChange | EvOther

datatype event_data =
    LevelChangeData int int
  | TextChangeData int jsstring
  | AnimationStateData bool

record Listeners =
  levelChange :: "nat list"
  textChange :: "nat list"
  animationStateChange :: "nat list"

text \<open>
  \<open>AppState\<close>. \<open>notifications\<close> is the record of the notifications made: the event, its
  data and the callbacks called with it, in the order of the calls.
\<close>

record AppState =
  currentLevel :: int
  texts :: "int \<rightharpoonup> jsstring"
  level_metadata :: "int \<rightharpoonup> jsstring"
  isAnimating :: bool
  viewportAnchor :: "jsstring option \<times> int"
  cache :: "jsstring \<rightharpoonup> jsstring"
  appOriginalText :: "jsstring option"
  listeners :: Listeners
  notifications :: "(event_name \<times> event_data \<times> nat list) list"

definition getLevel :: "AppState \<Rightarrow> int" where
  "getLevel st = currentLevel st"

text \<open>\<open>AppState.listeners[event]\<close>: the three arrays exist from the start and are never deleted.\<close>

definition listenersOf :: "Listeners \<Rightarrow> event_name \<Rightarrow> nat list option" where
  "listenersOf ls ev =
     (case ev of
        EvLevelChange \<Rightarrow> Some (levelChange ls)
      | EvTextChange \<Rightarrow> Some (textChange ls)
      | EvAnimationStateChange \<Rightarrow> Some (animationStateChange ls)
      | EvOther \<Rightarrow> None)"

definition notifyListeners ::
  "event_name \<Rightarrow> event_data \<Rightarrow> AppState \<Rightarrow> AppState" where
  "notifyListeners ev d st =
     (case listenersOf (listeners st) ev of
        None \<Rightarrow> st
      | Some callbacks \<Rightarrow> st\<lparr> notifications := notifications st @ [(ev, d, callbacks)] \<rparr>)"

text \<open>
  \<open>parseInt\<close> of a string, without a radix: leading white space is skipped, a sign is
  read, the prefix \<open>0x\<close> or \<open>0X\<close> selects radix 16, and the longest run of digits of the
  radix is the value; no digit gives \<open>NaN\<close>, which is \<open>None\<close>.
\<close>

definition digitValue :: "nat \<Rightarrow> nat \<Rightarrow> nat option" where
  "digitValue radix c =
     (let v = (if 48 \<le> c \<and> c \<le> 57 then Some (c - 48)
               else if 97 \<le> c \<and> c \<le> 122 then Some (c - 87)
               else if 65 \<le> c \<and> c \<le> 90 then Some (c - 55)
               else None)
      in case v of None \<Rightarrow> None | Some d \<Rightarrow> if d < radix then Some d else None)"

definition parseDigits :: "nat \<Rightarrow> jsstring \<Rightarrow> int option" where
  "parseDigits radix s =
     (let ds = takeWhile (\<lambda>c. digitValue radix c \<noteq> None) s
      in if ds = [] then None
         else Some (foldl (\<lambda>a c. a * int radix + int (the (digitValue radix c))) 0 ds))"

definition parseInt :: "jsstring \<Rightarrow> int option" where
  "parseInt s =
     (let s1 = dropWhile isWhiteSpace s;
          (sign, s2) = (case s1 of
                          c # cs \<Rightarrow> if c = 45 then (-1, cs) else if c = 43 then (1, cs) else (1, s1)
                        | [] \<Rightarrow> (1, s1));
          (radix, s3) = (case s2 of
                           c # d # cs \<Rightarrow> if c = 48 \<and> (d = 120 \<or> d = 88) then (16, cs) else (10, s2)
                         | _ \<Rightarrow> (10, s2))
      in map_option (\<lambda>v. sign * v) (parseDigits radix s3))"

text \<open>
  \<open>parseInt\<close> converts its argument to a string first. The model of \<open>setLevel\<close>
  takes that string: for a number with an integral value of magnitude below \<open>10^21\<close>
  it is the decimal numeral, so that the level 2 is the string \<open>2\<close>.
\<close>

text \<open>\<open>setLevel\<close> returns its boolean and the state it leaves.\<close>

definition setLevel :: "jsstring \<Rightarrow> AppState \<Rightarrow> bool \<times> AppState" where
  "setLevel level st =
     (case parseInt level of
        None \<Rightarrow> (False, st)
      | Some newLevel \<Rightarrow>
          if newLevel \<notin> {0, 1, 2, 3} then (False, st)
          else if currentLevel st = newLevel then (False, st)
          else (let oldLevel = currentLevel st;
                    st1 = st\<lparr> currentLevel := newLevel \<rparr>
                in (True, notifyListeners EvLevelChange (LevelChangeData oldLevel newLevel) st1)))"

section \<open>Gesture handler: the pinch mapping\<close>

definition minScale :: real where "minScale = 1 / 2"
definition maxScale :: real where "maxScale = 2"
definition threshold :: real where "threshold = 15 / 100"

text \<open>The constant \<open>rawLevel\<close> of \<open>scaleToLevel\<close>.\<close>

definition rawLevel :: "jsnum \<Rightarrow> jsnum" where
  "rawLevel scale =
     (let clampedScale = jsmax (Fin minScale) (jsmin (Fin maxScale) scale);
          normalized = jsdiv (jssub clampedScale (Fin minScale))
                             (jssub (Fin maxScale) (Fin minScale))
      in jssub (Fin 3) (jsmul normalized (Fin 3)))"

definition scaleToLevel :: "AppState \<Rightarrow> jsnum \<Rightarrow> jsnum" where
  "scaleToLevel st scale =
     (let currentLevel' = Fin (of_int (getLevel st));
          levelDiff = Math_abs (jssub (rawLevel scale) currentLevel')
      in if jsge levelDiff (Fin threshold) then Math_round (rawLevel scale)
         else currentLevel')"

section \<open>Animator: the parameters of a timeline\<close>

definition largeTransitionThreshold :: nat where "largeTransitionThreshold = 3000"
definition samplingRate_large :: real where "samplingRate_large = 1 / 2"
definition stagger_amount :: real where "stagger_amount = 4 / 10"

text \<open>\<open>field?.length || 0\<close>: a missing field counts 0.\<close>

definition lengthOrZero :: "'a list option \<Rightarrow> nat" where
  "lengthOrZero field = (case field of None \<Rightarrow> 0 | Some xs \<Rightarrow> length xs)"

definition isLargeTransition :: "('a list option, 'm) Diff \<Rightarrow> bool" where
  "isLargeTransition diffData =
     (let totalWords = lengthOrZero (added diffData) + lengthOrZero (kept diffData)
      in totalWords \<ge> largeTransitionThreshold)"

datatype direction = Out | In

record TimelineParams =
  addedSamplingRate :: real
  keptSamplingRate :: real
  totalAnimatedWords :: nat
  durationMultiplier :: real
  adjustedStaggerAmount :: real

text \<open>
  What \<open>executeTimeline\<close> computes from the diff and the direction before it builds the
  animation: the two sampling rates, the number of animated words, the duration
  multiplier and the stagger window.
\<close>

definition executeTimeline ::
  "('a list option, 'm) Diff \<Rightarrow> direction \<Rightarrow> TimelineParams" where
  "executeTimeline diffData dir =
     (let isZoomOut = (dir = Out);
          (addedRate, keptRate) =
             (if isLargeTransition diffData
              then (if isZoomOut then (1, 7 / 10) else (samplingRate_large, 0))
              else (1, 0));
          total = lengthOrZero (added diffData) + lengthOrZero (kept diffData)
                  + lengthOrZero (removed diffData);
          multiplier = max (3 / 10) (min 1 (real total / 100))
      in \<lparr> addedSamplingRate = addedRate, keptSamplingRate = keptRate,
           totalAnimatedWords = total, durationMultiplier = multiplier,
           adjustedStaggerAmount = stagger_amount * multiplier \<rparr>)"

text \<open>The state the application starts in.\<close>

definition initialState :: AppState where
  "initialState =
     \<lparr> currentLevel = 0, texts = Map.empty, level_metadata = Map.empty, isAnimating = False,
       viewportAnchor = (None, 0), cache = Map.empty, appOriginalText = None,
       listeners = \<lparr> levelChange = [], textChange = [], animationStateChange = [] \<rparr>,
       notifications = [] \<rparr>"

text \<open>
  A level request is valid and new for a state when it parses to one of the four levels
  and that level is not the current one.
\<close>

definition validNewLevel ::
  "jsstring \<Rightarrow> AppState \<Rightarrow> int \<Rightarrow> bool" where
  "validNewLevel level st n \<longleftrightarrow>
     parseInt level = Some n \<and> n \<in> {0, 1, 2, 3} \<and> n \<noteq> currentLevel st"

section \<open>The lowercasing of the examples\<close>

text \<open>
  On a string of ASCII characters the built-in replaces the capitals A to Z by the small
  letters and leaves the rest. The examples below use this function for \<open>lower\<close>, on
  ASCII strings only.
\<close>

definition asciiLowerCase :: lowercasing where
  "asciiLowerCase s = map (\<lambda>c. if 65 \<le> c \<and> c \<le> 90 then c + 32 else c) s"

section \<open>An example text\<close>

text \<open>
  One paragraph of two sentences of two words, with tokenizers that split it so: the
  paragraph into its sentences, a sentence or the whole text into its words.
\<close>

definition exampleText :: jsstring where
  "exampleText = str ''Cats run. Dogs bark.''"

definition exampleSentTok :: tokenizer where
  "exampleSentTok p = (if p = exampleText then [str ''Cats run.'', str ''Dogs bark.''] else [])"

definition exampleWordTok :: tokenizer where
  "exampleWordTok s =
     (if s = str ''Cats run.'' then [str ''Cats'', str ''run'']
      else if s = str ''Dogs bark.'' then [str ''Dogs'', str ''bark'']
      else if s = exampleText then [str ''Cats'', str ''run'', str ''Dogs'', str ''bark'']
      else [])"

text \<open>A TF-IDF map of two words with equal raw scores.\<close>

definition exampleScores :: tfidf_map where
  "exampleScores =
     [(str ''cat'', \<lparr> info_word = str ''cat'', tf = Fin (1 / 2), idf = Fin (1 / 2),
                      tfidf = Fin (1 / 4), frequency = 1, normalizedTfidf = None \<rparr>),
      (str ''dog'', \<lparr> info_word = str ''dog'', tf = Fin (1 / 2), idf = Fin (1 / 2),
                      tfidf = Fin (1 / 4), frequency = 1, normalizedTfidf = None \<rparr>)]"

text \<open>The answer of the server as the client receives it: the diff, every field present.\<close>

definition serverAnswer ::
  "(jsstring list, Morph list) Diff \<Rightarrow> (entry list option, Morph option list option) Diff" where
  "serverAnswer d =
     \<lparr> kept = Some (map EStr (kept d)), removed = Some (map EStr (removed d)),
       added = Some (map EStr (added d)), morphed = Some (map Some (morphed d)) \<rparr>"


section \<open>Properties of the fast-path diff\<close>

lemmas string_eval = str_def isWhiteSpace_def trim_def asciiLowerCase_def
  splitWords_def Let_def

lemma asciiLowerCase_idem: "asciiLowerCase (asciiLowerCase w) = asciiLowerCase w"
  by (simp add: asciiLowerCase_def)

text \<open>The words of a text are not empty and hold no white space.\<close>

lemma split_ws_tokens:
  "\<forall>c \<in> set cur. \<not> isWhiteSpace c \<Longrightarrow>
     \<forall>w \<in> set (split_ws cur cs). \<forall>c \<in> set w. \<not> isWhiteSpace c"
proof (induction cur cs rule: split_ws.induct)
  case (1 cur)
  then show ?case by simp
next
  case (2 cur c cs)
  show ?case
  proof (cases "isWhiteSpace c")
    case True
    have "\<forall>w \<in> set (split_ws [] (dropWhile isWhiteSpace cs)). \<forall>c \<in> set w. \<not> isWhiteSpace c"
      using "2.IH"(1) [OF True] by simp
    then show ?thesis using True "2.prems" by simp
  next
    case False
    have "\<forall>c \<in> set (cur @ [c]). \<not> isWhiteSpace c" using False "2.prems" by simp
    from "2.IH"(2) [OF False this] show ?thesis using False by simp
  qed
qed

lemma trim_Nil: "trim [] = []"
  by (simp add: trim_def)

lemma splitWords_tokens:
  assumes "w \<in> set (splitWords t)"
  shows "w \<noteq> [] \<and> (\<forall>c \<in> set w. \<not> isWhiteSpace c)"
proof -
  from assms have w: "w \<in> set (split_ws [] t)" and n: "trim w \<noteq> []"
    by (simp_all add: splitWords_def)
  from n have "w \<noteq> []" using trim_Nil by blast
  moreover have "\<forall>c \<in> set w. \<not> isWhiteSpace c"
    using split_ws_tokens [of "[]" t] w by simp
  ultimately show ?thesis by (rule conjI)
qed

lemma set_foldl_set_add: "set (foldl set_add acc xs) = set acc \<union> set xs"
  by (induction xs arbitrary: acc) (auto simp: set_add_def)

lemma distinct_foldl_set_add: "distinct acc \<Longrightarrow> distinct (foldl set_add acc xs)"
  by (induction xs arbitrary: acc) (auto simp: set_add_def)

lemma set_new_Set: "set (new_Set xs) = set xs"
  by (simp add: new_Set_def set_foldl_set_add)

lemma distinct_new_Set: "distinct (new_Set xs)"
  by (simp add: new_Set_def distinct_foldl_set_add)

text \<open>A \<open>Set\<close> made of a list holds its elements in the order of their first occurrence.\<close>

lemma remdups_drop_member: "x \<in> set ys \<Longrightarrow> remdups (zs @ x # ys) = remdups (zs @ ys)"
  by (induction zs) auto

lemma foldl_set_add_first:
  "distinct acc \<Longrightarrow> foldl set_add acc xs = rev (remdups (rev (acc @ xs)))"
proof (induction xs arbitrary: acc)
  case Nil
  then show ?case by (simp add: distinct_remdups_id)
next
  case (Cons x xs)
  show ?case
  proof (cases "x \<in> set acc")
    case True
    have "remdups (rev xs @ x # rev acc) = remdups (rev xs @ rev acc)"
      using True by (simp add: remdups_drop_member)
    then show ?thesis using True Cons by (simp add: set_add_def)
  next
    case False
    then have "distinct (acc @ [x])" using Cons.prems by simp
    from Cons.IH [OF this] show ?thesis using False by (simp add: set_add_def)
  qed
qed

lemma new_Set_first: "new_Set xs = rev (remdups (rev xs))"
  using foldl_set_add_first [of "[]" xs] by (simp add: new_Set_def)

lemma set_foldl_cond_add:
  "set (foldl (\<lambda>s w. if P w then set_add s w else s) acc xs) = set acc \<union> {w \<in> set xs. P w}"
  by (induction xs arbitrary: acc) (auto simp: set_add_def)

lemma distinct_foldl_cond_add:
  "distinct acc \<Longrightarrow> distinct (foldl (\<lambda>s w. if P w then set_add s w else s) acc xs)"
  by (induction xs arbitrary: acc) (auto simp: set_add_def)

lemma foldl_cond_add_all:
  "distinct (acc @ xs) \<Longrightarrow> \<forall>w \<in> set xs. P w \<Longrightarrow>
     foldl (\<lambda>s w. if P w then set_add s w else s) acc xs = acc @ xs"
  by (induction xs arbitrary: acc) (auto simp: set_add_def)

lemma foldl_cond_add_none:
  "\<forall>w \<in> set xs. \<not> P w \<Longrightarrow> foldl (\<lambda>s w. if P w then set_add s w else s) acc xs = acc"
  by (induction xs arbitrary: acc) auto

lemma set_findExactMatches:
  "set (findExactMatches lower ss ts) = lower ` set ss \<inter> lower ` set ts"
  by (auto simp: findExactMatches_def Let_def set_foldl_cond_add set_new_Set)

lemma distinct_findExactMatches: "distinct (findExactMatches lower ss ts)"
  by (simp add: findExactMatches_def Let_def distinct_foldl_cond_add)

lemma findExactMatches_self: "findExactMatches lower ws ws = new_Set (map lower ws)"
  unfolding findExactMatches_def Let_def
  using foldl_cond_add_all [of "[]" "new_Set (map lower ws)"
          "\<lambda>w. w \<in> set (new_Set (map lower ws))"]
  by (simp add: distinct_new_Set)

lemma analyzeDifference_kept:
  "kept (analyzeDifference lower A B) =
     findExactMatches lower (map lower (splitWords A)) (map lower (splitWords B))"
  by (simp add: analyzeDifference_def Let_def)

text \<open>
  The three lists of the diff as sets, whatever the lowercasing: the words are lowercased
  once by \<open>analyzeDifference\<close> and once more by \<open>findExactMatches\<close>.
\<close>

lemma set_kept:
  "set (kept (analyzeDifference lower A B)) =
     lower ` lower ` set (splitWords A) \<inter> lower ` lower ` set (splitWords B)"
  by (simp add: analyzeDifference_kept set_findExactMatches)

lemma set_removed:
  "set (removed (analyzeDifference lower A B)) =
     lower ` set (splitWords A)
       - (lower ` lower ` set (splitWords A) \<inter> lower ` lower ` set (splitWords B))"
  by (auto simp: analyzeDifference_def Let_def set_foldl_cond_add set_findExactMatches)

lemma set_added:
  "set (added (analyzeDifference lower A B)) =
     lower ` set (splitWords B)
       - (lower ` lower ` set (splitWords A) \<inter> lower ` lower ` set (splitWords B))"
  by (auto simp: analyzeDifference_def Let_def set_foldl_cond_add set_findExactMatches)

text \<open>
  With a lowercasing that leaves a lowercased word as it is, as that of the language does,
  the diff is the intersection and the two differences of the lowercase vocabularies.
\<close>

lemma set_diff_idempotent:
  assumes "\<forall>w. lower (lower w) = lower w"
  shows "set (kept (analyzeDifference lower A B))
           = lower ` set (splitWords A) \<inter> lower ` set (splitWords B)
       \<and> set (removed (analyzeDifference lower A B))
           = lower ` set (splitWords A) - lower ` set (splitWords B)
       \<and> set (added (analyzeDifference lower A B))
           = lower ` set (splitWords B) - lower ` set (splitWords A)"
proof -
  have i: "lower ` lower ` X = lower ` X" for X
    using assms by (simp add: image_image)
  show ?thesis
    unfolding set_kept set_removed set_added i by blast
qed

text \<open>The end-to-end scenario of the fast path.\<close>

lemma analyzeDifference_example:
  "analyzeDifference asciiLowerCase (str ''the quick brown fox'') (str ''The slow fox runs'')
     = \<lparr> kept = [str ''the'', str ''fox''], removed = [str ''quick'', str ''brown''],
         added = [str ''slow'', str ''runs''], morphed = [] \<rparr>"
  by (simp add: analyzeDifference_def findExactMatches_def new_Set_def set_add_def string_eval)

text \<open>
  C4. The lowercasing of the language leaves a lowercased word as it is. With such a
  lowercasing the fast-path diff of a text against itself keeps the whole vocabulary of
  the text: \<open>kept\<close> is the list of the lowercased white-space tokens of the text, each
  once, in the order of their first occurrence; every kept word is lowercase, the
  lowercasing leaving it as it is; and \<open>removed\<close>, \<open>added\<close> and \<open>morphed\<close> are empty.
\<close>

theorem analyzeDifference_self:
  assumes "\<forall>w. lower (lower w) = lower w"
  shows "kept (analyzeDifference lower A A) = rev (remdups (rev (map lower (splitWords A))))
       \<and> distinct (kept (analyzeDifference lower A A))
       \<and> set (kept (analyzeDifference lower A A)) = lower ` set (splitWords A)
       \<and> (\<forall>k \<in> set (kept (analyzeDifference lower A A)). lower k = k)
       \<and> removed (analyzeDifference lower A A) = []
       \<and> added (analyzeDifference lower A A) = []
       \<and> morphed (analyzeDifference lower A A) = []"
proof -
  let ?ws = "map lower (splitWords A)"
  have idem: "map lower ?ws = ?ws" using assms by simp
  have m: "findExactMatches lower ?ws ?ws = new_Set ?ws"
    by (simp only: findExactMatches_self idem)
  have none: "foldl (\<lambda>s w. if w \<notin> set (new_Set ?ws) then set_add s w else s) [] ?ws = []"
    by (rule foldl_cond_add_none) (simp add: set_new_Set)
  have k: "kept (analyzeDifference lower A A) = rev (remdups (rev ?ws))"
    by (simp only: analyzeDifference_kept m new_Set_first)
  have d: "distinct (kept (analyzeDifference lower A A))"
    by (simp only: analyzeDifference_kept m distinct_new_Set)
  have s: "set (kept (analyzeDifference lower A A)) = lower ` set (splitWords A)"
    by (simp only: analyzeDifference_kept m set_new_Set set_map)
  have r: "removed (analyzeDifference lower A A) = []"
    using none by (simp add: analyzeDifference_def Let_def m del: map_map)
  have a: "added (analyzeDifference lower A A) = []"
    using none by (simp add: analyzeDifference_def Let_def m del: map_map)
  have e: "morphed (analyzeDifference lower A A) = []"
    by (simp add: analyzeDifference_def Let_def)
  have l: "\<forall>k \<in> set (kept (analyzeDifference lower A A)). lower k = k"
    unfolding s using assms by auto
  show ?thesis
    by (rule conjI [OF k conjI [OF d conjI [OF s conjI [OF l conjI [OF r conjI [OF a e]]]]]])
qed

theorem analyzeDifference_self_witness:
  "(\<forall>w. asciiLowerCase (asciiLowerCase w) = asciiLowerCase w)
   \<and> splitWords (str ''The quick the FOX'')
       = [str ''The'', str ''quick'', str ''the'', str ''FOX'']
   \<and> kept (analyzeDifference asciiLowerCase (str ''The quick the FOX'') (str ''The quick the FOX''))
       = [str ''the'', str ''quick'', str ''fox'']
   \<and> removed (analyzeDifference asciiLowerCase (str ''The quick the FOX'') (str ''The quick the FOX''))
       = []
   \<and> added (analyzeDifference asciiLowerCase (str ''The quick the FOX'') (str ''The quick the FOX''))
       = []
   \<and> morphed (analyzeDifference asciiLowerCase (str ''The quick the FOX'') (str ''The quick the FOX''))
       = []"
proof -
  have h: "\<forall>w. asciiLowerCase (asciiLowerCase w) = asciiLowerCase w"
    by (simp add: asciiLowerCase_idem)
  have t: "splitWords (str ''The quick the FOX'')
             = [str ''The'', str ''quick'', str ''the'', str ''FOX'']"
    by (simp add: string_eval)
  have v: "rev (remdups (rev (map asciiLowerCase
             [str ''The'', str ''quick'', str ''the'', str ''FOX''])))
           = [str ''the'', str ''quick'', str ''fox'']"
    by (simp add: str_def asciiLowerCase_def)
  show ?thesis
    using analyzeDifference_self [OF h, of "str ''The quick the FOX''"] h
    unfolding t v by simp
qed

text \<open>
  C5. The fast-path diff is symmetric as sets: exchanging the two texts leaves the set of
  kept words as it is and exchanges the sets of removed and added words. This holds
  whatever the lowercasing.
\<close>

theorem analyzeDifference_symmetric:
  "set (kept (analyzeDifference lower A B)) = set (kept (analyzeDifference lower B A))
   \<and> set (removed (analyzeDifference lower A B)) = set (added (analyzeDifference lower B A))
   \<and> set (added (analyzeDifference lower A B)) = set (removed (analyzeDifference lower B A))"
  by (simp add: set_kept set_removed set_added Int_commute)

section \<open>Properties of the re-projection\<close>

lemma freeOccurrences_Nil: "freeOccurrences lower w used i [] = 0"
  by (simp add: freeOccurrences_def)

lemma freeOccurrences_Cons:
  "freeOccurrences lower w used i (x # xs) =
     (if lower x = w \<and> i \<notin> used then 1 else 0) + freeOccurrences lower w used (Suc i) xs"
proof -
  have "[i ..< i + length (x # xs)] = i # [Suc i ..< Suc i + length xs]"
    by (simp add: upt_rec)
  then show ?thesis by (simp add: freeOccurrences_def)
qed

lemma freeOccurrences_insert_below:
  "k < i \<Longrightarrow> freeOccurrences lower w (insert k used) i ws = freeOccurrences lower w used i ws"
proof (induction ws arbitrary: i)
  case Nil
  then show ?case by (simp add: freeOccurrences_Nil)
next
  case (Cons x xs)
  then show ?case by (simp add: freeOccurrences_Cons)
qed

lemma increment_apply: "increment c k w = (if w = k then c k + 1 else c w)"
  by (simp add: increment_def)

lemma decrement_apply: "decrement c k w = (if w = k then c k - 1 else c w)"
  by (simp add: decrement_def)

lemma countWords_foldl:
  "foldl (\<lambda>counts e. increment counts (lower (entryWord e))) c ws w
     = c w + length (filter (\<lambda>e. lower (entryWord e) = w) ws)"
  by (induction ws arbitrary: c) (auto simp: increment_apply)

lemma countWords_eq:
  "countWords lower ws w = length (filter (\<lambda>e. lower (entryWord e) = w) ws)"
  by (simp add: countWords_def countWords_foldl)

lemma matchWords_take:
  "positiveCount counts (lower x) \<Longrightarrow> i \<notin> used \<Longrightarrow>
     fst (matchWords lower counts used i (x # xs)) =
       \<lparr> word = x, index = i \<rparr>
         # fst (matchWords lower (decrement counts (lower x)) (insert i used) (Suc i) xs)
     \<and> snd (matchWords lower counts used i (x # xs)) =
         snd (matchWords lower (decrement counts (lower x)) (insert i used) (Suc i) xs)"
  by (simp add: Let_def split: prod.splits)

lemma matchWords_skip:
  "\<not> (positiveCount counts (lower x) \<and> i \<notin> used) \<Longrightarrow>
     matchWords lower counts used i (x # xs) = matchWords lower counts used (Suc i) xs"
  by (auto simp: Let_def)

lemma assignedCount_Cons:
  "assignedCount lower (r # rs) w = (if lower (word r) = w then 1 else 0) + assignedCount lower rs w"
  by (simp add: assignedCount_def)

lemma matchWords_count:
  "\<not> objectPrototypeKey w \<Longrightarrow>
     assignedCount lower (fst (matchWords lower counts used i ws)) w
       = min (counts w) (freeOccurrences lower w used i ws)"
proof (induction ws arbitrary: counts used i)
  case Nil
  then show ?case by (simp add: assignedCount_def freeOccurrences_Nil)
next
  case (Cons x xs)
  show ?case
  proof (cases "positiveCount counts (lower x) \<and> i \<notin> used")
    case True
    let ?c = "decrement counts (lower x)"
    have ih: "assignedCount lower (fst (matchWords lower ?c (insert i used) (Suc i) xs)) w
                = min (?c w) (freeOccurrences lower w used (Suc i) xs)"
      using Cons.IH [OF Cons.prems, of ?c "insert i used" "Suc i"]
      by (simp add: freeOccurrences_insert_below)
    have step: "assignedCount lower (fst (matchWords lower counts used i (x # xs))) w
                  = (if lower x = w then 1 else 0)
                    + assignedCount lower (fst (matchWords lower ?c (insert i used) (Suc i) xs)) w"
      using True matchWords_take [of counts lower x i used xs] by (simp add: assignedCount_Cons)
    show ?thesis
    proof (cases "lower x = w")
      case eq: True
      with True have pos: "0 < counts w" by (simp add: positiveCount_def)
      have "?c w = counts w - 1" using eq by (simp add: decrement_apply)
      then show ?thesis
        using eq True step ih pos by (simp add: freeOccurrences_Cons)
    next
      case False
      then have "?c w = counts w" by (auto simp: decrement_apply)
      then show ?thesis
        using False step ih by (simp add: freeOccurrences_Cons)
    qed
  next
    case False
    have step: "matchWords lower counts used i (x # xs) = matchWords lower counts used (Suc i) xs"
      by (rule matchWords_skip [where lower = lower and x = x, OF False])
    have ih: "assignedCount lower (fst (matchWords lower counts used (Suc i) xs)) w
                = min (counts w) (freeOccurrences lower w used (Suc i) xs)"
      by (rule Cons.IH [OF Cons.prems])
    show ?thesis
    proof (cases "lower x = w \<and> i \<notin> used")
      case True
      with False Cons.prems have "counts w = 0" by (auto simp: positiveCount_def)
      then show ?thesis using step ih by simp
    next
      case False
      then show ?thesis using step ih by (auto simp: freeOccurrences_Cons)
    qed
  qed
qed

lemma matchWords_refs:
  "r \<in> set (fst (matchWords lower counts used i ws)) \<Longrightarrow>
     index r \<notin> used \<and> i \<le> index r \<and> index r < i + length ws \<and> word r = ws ! (index r - i)"
proof (induction ws arbitrary: counts used i)
  case Nil
  then show ?case by simp
next
  case (Cons x xs)
  show ?case
  proof (cases "positiveCount counts (lower x) \<and> i \<notin> used")
    case True
    let ?c = "decrement counts (lower x)"
    from Cons.prems True matchWords_take [of counts lower x i used xs]
    consider "r = \<lparr> word = x, index = i \<rparr>"
      | "r \<in> set (fst (matchWords lower ?c (insert i used) (Suc i) xs))"
      by auto
    then show ?thesis
    proof cases
      case 1
      then show ?thesis using True by simp
    next
      case 2
      from Cons.IH [OF 2] show ?thesis by (auto simp: Suc_diff_le)
    qed
  next
    case False
    with Cons.prems have "r \<in> set (fst (matchWords lower counts used (Suc i) xs))"
      by (simp only: matchWords_skip [where lower = lower and x = x, OF False])
    from Cons.IH [OF this] show ?thesis by (auto simp: Suc_diff_le)
  qed
qed


lemma matchWords_used:
  "snd (matchWords lower counts used i ws) = used \<union> index ` set (fst (matchWords lower counts used i ws))"
proof (induction ws arbitrary: counts used i)
  case Nil
  then show ?case by simp
next
  case (Cons x xs)
  show ?case
  proof (cases "positiveCount counts (lower x) \<and> i \<notin> used")
    case True
    then show ?thesis
      using Cons.IH [of "decrement counts (lower x)" "insert i used" "Suc i"]
        matchWords_take [of counts lower x i used xs]
      by auto
  next
    case False
    show ?thesis using Cons.IH [of counts used "Suc i"] by (simp only: matchWords_skip [where lower = lower and x = x, OF False])
  qed
qed


lemma freeOccurrences_empty: "freeOccurrences lower w {} i ws = occurrences lower w ws"
  by (induction ws arbitrary: i) (simp_all add: freeOccurrences_Nil freeOccurrences_Cons occurrences_def)

lemma kept_transformDiffData:
  "kept (transformDiffData lower d fromText toText) =
     (case kept d of
        None \<Rightarrow> []
      | Some ks \<Rightarrow> fst (matchWords lower (countWords lower ks) {} 0 (splitWords toText)))"
  by (simp add: transformDiffData_def Let_def split: option.splits prod.splits)

lemma added_transformDiffData:
  "added (transformDiffData lower d fromText toText) =
     (case added d of
        None \<Rightarrow> []
      | Some as \<Rightarrow>
          fst (matchWords lower (countWords lower as) (index ` set (kept (transformDiffData lower d fromText toText)))
                 0 (splitWords toText)))"
proof (cases "kept d")
  case None
  then show ?thesis
    by (simp add: transformDiffData_def Let_def split: option.splits prod.splits)
next
  case (Some ks)
  have u: "snd (matchWords lower (countWords lower ks) {} 0 (splitWords toText))
             = index ` set (fst (matchWords lower (countWords lower ks) {} 0 (splitWords toText)))"
    using matchWords_used [of lower "countWords lower ks" "{}" 0 "splitWords toText"] by simp
  show ?thesis
    using Some u
    by (auto simp: transformDiffData_def Let_def split: option.splits prod.splits)
qed

lemma reportedCount_Some: "reportedCount lower (Some ws) w = countWords lower ws w"
  by (simp add: reportedCount_def countWords_eq)

lemma assignedCount_Nil: "assignedCount lower [] w = 0"
  by (simp add: assignedCount_def)

lemma kept_count:
  "\<not> objectPrototypeKey w \<Longrightarrow>
     assignedCount lower (kept (transformDiffData lower d fromText toText)) w
       = min (reportedCount lower (kept d) w) (occurrences lower w (splitWords toText))"
proof (cases "kept d")
  case None
  then show ?thesis
    by (simp add: kept_transformDiffData assignedCount_Nil reportedCount_def)
next
  case (Some ks)
  assume "\<not> objectPrototypeKey w"
  then show ?thesis
    using Some matchWords_count [of w lower "countWords lower ks" "{}" 0 "splitWords toText"]
    by (simp add: kept_transformDiffData reportedCount_Some freeOccurrences_empty)
qed

lemma added_count:
  "\<not> objectPrototypeKey w \<Longrightarrow>
     assignedCount lower (added (transformDiffData lower d fromText toText)) w
       = min (reportedCount lower (added d) w)
           (freeOccurrences lower w (index ` set (kept (transformDiffData lower d fromText toText))) 0
              (splitWords toText))"
proof (cases "added d")
  case None
  then show ?thesis
    by (simp add: added_transformDiffData assignedCount_Nil reportedCount_def)
next
  case (Some as)
  assume "\<not> objectPrototypeKey w"
  then show ?thesis
    using Some
      matchWords_count [of w lower "countWords lower as"
        "index ` set (kept (transformDiffData lower d fromText toText))" 0 "splitWords toText"]
    by (simp add: added_transformDiffData reportedCount_Some)
qed

lemma kept_refs:
  "r \<in> set (kept (transformDiffData lower d fromText toText)) \<Longrightarrow>
     index r < length (splitWords toText) \<and> word r = splitWords toText ! index r"
  using matchWords_refs [of r lower _ "{}" 0 "splitWords toText"]
  by (auto simp: kept_transformDiffData split: option.splits)






lemmas reprojection_eval = transformDiffData_def objectPrototypeKey_def countWords_def
  increment_def decrement_def positiveCount_def reportedCount_def assignedCount_def
  occurrences_def freeOccurrences_def



text \<open>
  It fails as well for a word that is an inherited property name, even in the diff of the
  rendered texts themselves: reported once, rendered once, never assigned.
\<close>

lemma transformDiffData_prototype_key_example:
  "analyzeDifference asciiLowerCase (str ''the constructor'') (str ''the constructor'')
     = \<lparr> kept = [str ''the'', str ''constructor''], removed = [], added = [], morphed = [] \<rparr>
   \<and> transformDiffData asciiLowerCase
        \<lparr> kept = Some [EStr (str ''the''), EStr (str ''constructor'')],
          removed = Some [], added = Some [], morphed = Some [] \<rparr>
        (str ''the constructor'') (str ''the constructor'')
     = \<lparr> kept = [\<lparr> word = str ''the'', index = 0 \<rparr>], removed = [], added = [],
         morphed = [] \<rparr>"
  by (simp add: analyzeDifference_def findExactMatches_def new_Set_def set_add_def
        string_eval reprojection_eval)

lemma matchWords_counted:
  "r \<in> set (fst (matchWords lower counts used i ws)) \<Longrightarrow> 0 < counts (lower (word r))"
proof (induction ws arbitrary: counts used i)
  case Nil
  then show ?case by simp
next
  case (Cons x xs)
  show ?case
  proof (cases "positiveCount counts (lower x) \<and> i \<notin> used")
    case True
    let ?c = "decrement counts (lower x)"
    from Cons.prems True matchWords_take [of counts lower x i used xs]
    consider "r = \<lparr> word = x, index = i \<rparr>"
      | "r \<in> set (fst (matchWords lower ?c (insert i used) (Suc i) xs))"
      by auto
    then show ?thesis
    proof cases
      case 1
      then show ?thesis using True by (simp add: positiveCount_def)
    next
      case 2
      from Cons.IH [OF 2] show ?thesis by (simp add: decrement_apply split: if_splits)
    qed
  next
    case False
    with Cons.prems have "r \<in> set (fst (matchWords lower counts used (Suc i) xs))"
      by (simp only: matchWords_skip [where lower = lower and x = x, OF False])
    from Cons.IH [OF this] show ?thesis .
  qed
qed

lemma count_distinct: "distinct xs \<Longrightarrow> length (filter (\<lambda>x. x = w) xs) = (if w \<in> set xs then 1 else 0)"
  by (induction xs) auto

lemma reported_lowercase:
  assumes "distinct ks" and "\<forall>k \<in> set ks. lower k = k"
  shows "reportedCount lower (Some (map EStr ks)) w = (if w \<in> set ks then 1 else 0)"
proof -
  have "filter (\<lambda>e. lower (entryWord e) = w) (map EStr ks)
          = map EStr (filter (\<lambda>k. k = w) ks)"
    using assms(2) by (induction ks) auto
  then show ?thesis
    using count_distinct [OF assms(1), of w] by (simp add: reportedCount_def)
qed

lemma occurrences_pos: "w \<in> lower ` set ws \<Longrightarrow> 0 < occurrences lower w ws"
  by (induction ws) (auto simp: occurrences_def)

lemma freeOccurrences_unused:
  "\<forall>j \<in> used. i \<le> j \<and> j < i + length ws \<longrightarrow> lower (ws ! (j - i)) \<noteq> w \<Longrightarrow>
     freeOccurrences lower w used i ws = occurrences lower w ws"
proof (induction ws arbitrary: i)
  case Nil
  then show ?case by (simp add: freeOccurrences_Nil occurrences_def)
next
  case (Cons x xs)
  have rest: "\<forall>j \<in> used. Suc i \<le> j \<and> j < Suc i + length xs \<longrightarrow> lower (xs ! (j - Suc i)) \<noteq> w"
  proof (intro ballI impI)
    fix j assume j: "j \<in> used" and b: "Suc i \<le> j \<and> j < Suc i + length xs"
    from b have "i \<le> j \<and> j < i + length (x # xs)" by simp
    with j Cons.prems have "lower ((x # xs) ! (j - i)) \<noteq> w" by blast
    moreover have "j - i = Suc (j - Suc i)" using b by linarith
    ultimately show "lower (xs ! (j - Suc i)) \<noteq> w" by simp
  qed
  have head: "i \<in> used \<longrightarrow> lower x \<noteq> w"
    using Cons.prems by auto
  have "occurrences lower w (x # xs) = (if lower x = w then 1 else 0) + occurrences lower w xs"
    by (simp add: occurrences_def)
  then show ?case
    using Cons.IH [OF rest] head by (auto simp: freeOccurrences_Cons)
qed

lemma distinct_kept: "distinct (kept (analyzeDifference lower A B))"
  by (simp add: analyzeDifference_kept distinct_findExactMatches)

lemma distinct_added: "distinct (added (analyzeDifference lower A B))"
  by (simp add: analyzeDifference_def Let_def distinct_foldl_cond_add)

text \<open>
  In the application's own flow the answer is the diff of the two texts that are rendered.
  There every reported word occurs in its text, and (the lowercasing leaving a lowercased
  word as it is) the counts agree: for a word other than the inherited property names, as
  many indices are assigned to \<open>kept\<close> and to \<open>added\<close> as the answer reports.
\<close>

lemma transformDiffData_of_analyzeDifference:
  assumes idem: "\<forall>w. lower (lower w) = lower w" and w: "\<not> objectPrototypeKey w"
  shows "assignedCount lower
           (kept (transformDiffData lower (serverAnswer (analyzeDifference lower A B)) A B)) w
           = reportedCount lower (kept (serverAnswer (analyzeDifference lower A B))) w
       \<and> assignedCount lower
           (added (transformDiffData lower (serverAnswer (analyzeDifference lower A B)) A B)) w
           = reportedCount lower (added (serverAnswer (analyzeDifference lower A B))) w"
proof -
  let ?d = "serverAnswer (analyzeDifference lower A B)"
  let ?T = "transformDiffData lower ?d A B"
  let ?K = "kept (analyzeDifference lower A B)"
  let ?N = "added (analyzeDifference lower A B)"
  note sets = set_diff_idempotent [OF idem, of A B]
  have sk: "set ?K = lower ` set (splitWords A) \<inter> lower ` set (splitWords B)"
    by (rule sets [THEN conjunct1])
  have sn: "set ?N = lower ` set (splitWords B) - lower ` set (splitWords A)"
    by (rule sets [THEN conjunct2, THEN conjunct2])
  have kl: "\<forall>k \<in> set ?K. lower k = k" unfolding sk using idem by auto
  have nl: "\<forall>k \<in> set ?N. lower k = k" unfolding sn using idem by auto
  have kd: "kept ?d = Some (map EStr ?K)" and ad: "added ?d = Some (map EStr ?N)"
    by (simp_all add: serverAnswer_def)
  have rk: "reportedCount lower (kept ?d) w = (if w \<in> set ?K then 1 else 0)"
    unfolding kd by (rule reported_lowercase [OF distinct_kept kl])
  have ra: "reportedCount lower (added ?d) w = (if w \<in> set ?N then 1 else 0)"
    unfolding ad by (rule reported_lowercase [OF distinct_added nl])
  note kc = kept_count [OF w, of lower ?d A B]
  note ac = added_count [OF w, of lower ?d A B]
  have k: "assignedCount lower (kept ?T) w = reportedCount lower (kept ?d) w"
  proof (cases "w \<in> set ?K")
    case True
    then have "w \<in> lower ` set (splitWords B)" by (simp add: sk)
    then have "0 < occurrences lower w (splitWords B)" by (rule occurrences_pos)
    then show ?thesis using kc rk True by simp
  next
    case False
    then show ?thesis using kc rk by simp
  qed
  have a: "assignedCount lower (added ?T) w = reportedCount lower (added ?d) w"
  proof (cases "w \<in> set ?N")
    case True
    then have wB: "w \<in> lower ` set (splitWords B)" and wK: "w \<notin> set ?K"
      by (auto simp: sn sk)
    have un: "\<forall>j \<in> index ` set (kept ?T).
                0 \<le> j \<and> j < 0 + length (splitWords B)
                  \<longrightarrow> lower (splitWords B ! (j - 0)) \<noteq> w"
    proof (intro ballI impI)
      fix j assume "j \<in> index ` set (kept ?T)"
      then obtain r where r: "r \<in> set (kept ?T)" and j: "j = index r" by auto
      from r have rr: "r \<in> set (fst (matchWords lower (countWords lower (map EStr ?K)) {} 0
                                       (splitWords B)))"
        by (simp add: kept_transformDiffData kd)
      from matchWords_counted [OF rr]
      have "0 < reportedCount lower (Some (map EStr ?K)) (lower (word r))"
        by (simp add: reportedCount_Some)
      then have "lower (word r) \<in> set ?K"
        using reported_lowercase [OF distinct_kept kl, of "lower (word r)"]
        by (simp split: if_splits)
      with wK have "lower (word r) \<noteq> w" by auto
      moreover from kept_refs [OF r] have "word r = splitWords B ! index r" by simp
      ultimately show "lower (splitWords B ! (j - 0)) \<noteq> w" using j by simp
    qed
    have "freeOccurrences lower w (index ` set (kept ?T)) 0 (splitWords B)
            = occurrences lower w (splitWords B)"
      by (rule freeOccurrences_unused [OF un])
    moreover have "0 < occurrences lower w (splitWords B)" using wB by (rule occurrences_pos)
    ultimately show ?thesis using ac ra True by simp
  next
    case False
    then show ?thesis using ac ra by simp
  qed
  from k a show ?thesis by (rule conjI)
qed

section \<open>Properties of the part-of-speech tagger\<close>

lemmas tagger_eval = estimatePOS_def str_def asciiLowerCase_def isAsciiLetter_def
  isDigit_def conjunctions_def prepositions_def determiners_def endsWith_def
  koreanParticle_def koreanEndings_def Let_def

lemma estimatePOS_examples:
  "estimatePOS asciiLowerCase (str ''quickly'') = ADV
   \<and> estimatePOS asciiLowerCase (str ''running'') = VERB
   \<and> estimatePOS asciiLowerCase (str ''The'') = DET
   \<and> estimatePOS asciiLowerCase (str ''beautiful'') = NOUN
   \<and> estimatePOS asciiLowerCase (str ''2024'') = NUM
   \<and> estimatePOS asciiLowerCase [54617, 44368, 50640] = ADP
   \<and> estimatePOS asciiLowerCase [] = NOUN"
  by (simp add: tagger_eval)

text \<open>
  C9. Whatever the word, the tagger answers one of the seven tags NOUN, VERB, NUM, ADP,
  DET, CONJ and ADV, and never ADJ, the eighth tag of the enumeration, although the weight
  table and the syntax score have a case for it.
\<close>

theorem estimatePOS_never_ADJ:
  "estimatePOS lower w \<in> {NOUN, VERB, NUM, ADP, DET, CONJ, ADV} \<and> estimatePOS lower w \<noteq> ADJ"
  by (simp add: estimatePOS_def Let_def)

lemma ADJ_cases_exist:
  "POS_WEIGHTS ADJ = 6 / 10 \<and> calculatePOSScore ADJ = 6 / 10
   \<and> (pos w = ADJ \<longrightarrow> calculateSyntaxScore w ws = 3 / 10)"
  by (simp add: POS_WEIGHTS_def calculatePOSScore_def calculateSyntaxScore_def Let_def)

section \<open>Properties of the animation parameters\<close>

text \<open>
  C8. The number of animated words is the sum of the lengths of \<open>added\<close>, \<open>kept\<close> and
  \<open>removed\<close>, a missing list counting 0; the duration multiplier is that number divided
  by 100, clamped to the interval from 0.3 to 1.0: it is 0.3 up to 30 words, 1 from 100
  words on and the hundredth of the number in between; the transition is large exactly
  when \<open>added\<close> and \<open>kept\<close> together have 3000 words or more, and exactly then the
  sampling rates leave their defaults (all added words, no kept word).
\<close>

theorem executeTimeline_parameters:
  "totalAnimatedWords (executeTimeline d dir)
     = (case added d of None \<Rightarrow> 0 | Some xs \<Rightarrow> length xs)
       + (case kept d of None \<Rightarrow> 0 | Some xs \<Rightarrow> length xs)
       + (case removed d of None \<Rightarrow> 0 | Some xs \<Rightarrow> length xs)
   \<and> durationMultiplier (executeTimeline d dir)
     = max (3 / 10) (min 1 (real ((case added d of None \<Rightarrow> 0 | Some xs \<Rightarrow> length xs)
                                  + (case kept d of None \<Rightarrow> 0 | Some xs \<Rightarrow> length xs)
                                  + (case removed d of None \<Rightarrow> 0 | Some xs \<Rightarrow> length xs))
                            / 100))
   \<and> durationMultiplier (executeTimeline d dir)
     = (if totalAnimatedWords (executeTimeline d dir) \<le> 30 then 3 / 10
        else if 100 \<le> totalAnimatedWords (executeTimeline d dir) then 1
        else real (totalAnimatedWords (executeTimeline d dir)) / 100)
   \<and> isLargeTransition d
     = (3000 \<le> (case added d of None \<Rightarrow> 0 | Some xs \<Rightarrow> length xs)
               + (case kept d of None \<Rightarrow> 0 | Some xs \<Rightarrow> length xs))
   \<and> isLargeTransition d
     = ((addedSamplingRate (executeTimeline d dir), keptSamplingRate (executeTimeline d dir))
         \<noteq> (1, 0))"
proof -
  define a where "a = (case added d of None \<Rightarrow> 0 | Some xs \<Rightarrow> length xs)"
  define k where "k = (case kept d of None \<Rightarrow> 0 | Some xs \<Rightarrow> length xs)"
  define r where "r = (case removed d of None \<Rightarrow> 0 | Some xs \<Rightarrow> length xs)"
  have la: "lengthOrZero (added d) = a" by (simp add: lengthOrZero_def a_def)
  have lk: "lengthOrZero (kept d) = k" by (simp add: lengthOrZero_def k_def)
  have lr: "lengthOrZero (removed d) = r" by (simp add: lengthOrZero_def r_def)
  have t: "totalAnimatedWords (executeTimeline d dir) = a + k + r"
    by (simp add: executeTimeline_def Let_def la lk lr split: prod.splits)
  have m: "durationMultiplier (executeTimeline d dir) = max (3 / 10) (min 1 (real (a + k + r) / 100))"
    by (simp add: executeTimeline_def Let_def la lk lr split: prod.splits)
  have c: "durationMultiplier (executeTimeline d dir)
           = (if totalAnimatedWords (executeTimeline d dir) \<le> 30 then 3 / 10
              else if 100 \<le> totalAnimatedWords (executeTimeline d dir) then 1
              else real (totalAnimatedWords (executeTimeline d dir)) / 100)"
    unfolding m t by (simp add: max_def min_def)
  have l: "isLargeTransition d = (3000 \<le> a + k)"
    by (simp add: isLargeTransition_def Let_def largeTransitionThreshold_def la lk)
  have s: "isLargeTransition d
           = ((addedSamplingRate (executeTimeline d dir), keptSamplingRate (executeTimeline d dir))
               \<noteq> (1, 0))"
    by (simp add: executeTimeline_def Let_def samplingRate_large_def split: prod.splits)
  show ?thesis
    unfolding a_def [symmetric] k_def [symmetric] r_def [symmetric]
    by (rule conjI [OF t conjI [OF m conjI [OF c conjI [OF l s]]]])
qed

theorem executeTimeline_parameters_witness:
  "totalAnimatedWords (executeTimeline
      \<lparr> kept = Some [str ''a'', str ''b''], removed = None, added = Some [str ''c''],
        morphed = () \<rparr> Out) = 3
   \<and> durationMultiplier (executeTimeline
      \<lparr> kept = Some [str ''a'', str ''b''], removed = None, added = Some [str ''c''],
        morphed = () \<rparr> Out) = 3 / 10
   \<and> \<not> isLargeTransition
      \<lparr> kept = Some [str ''a'', str ''b''], removed = None, added = Some [str ''c''],
        morphed = () \<rparr>
   \<and> totalAnimatedWords (executeTimeline
      \<lparr> kept = Some (replicate 30 (str ''a'')), removed = Some (replicate 10 (str ''b'')),
        added = Some (replicate 10 (str ''c'')), morphed = () \<rparr> In) = 50
   \<and> durationMultiplier (executeTimeline
      \<lparr> kept = Some (replicate 30 (str ''a'')), removed = Some (replicate 10 (str ''b'')),
        added = Some (replicate 10 (str ''c'')), morphed = () \<rparr> In) = 1 / 2
   \<and> isLargeTransition
      \<lparr> kept = Some (replicate 2000 (str ''a'')), removed = Some (replicate 5 (str ''b'')),
        added = Some (replicate 1000 (str ''c'')), morphed = () \<rparr>
   \<and> durationMultiplier (executeTimeline
      \<lparr> kept = Some (replicate 2000 (str ''a'')), removed = Some (replicate 5 (str ''b'')),
        added = Some (replicate 1000 (str ''c'')), morphed = () \<rparr> Out) = 1
   \<and> \<not> isLargeTransition
      \<lparr> kept = Some (replicate 2000 (str ''a'')), removed = Some (replicate 5 (str ''b'')),
        added = Some (replicate 999 (str ''c'')), morphed = () \<rparr>"
  using
    executeTimeline_parameters [of
      "\<lparr> kept = Some [str ''a'', str ''b''], removed = None, added = Some [str ''c''],
         morphed = () \<rparr>" Out]
    executeTimeline_parameters [of
      "\<lparr> kept = Some (replicate 30 (str ''a'')), removed = Some (replicate 10 (str ''b'')),
         added = Some (replicate 10 (str ''c'')), morphed = () \<rparr>" In]
    executeTimeline_parameters [of
      "\<lparr> kept = Some (replicate 2000 (str ''a'')), removed = Some (replicate 5 (str ''b'')),
         added = Some (replicate 1000 (str ''c'')), morphed = () \<rparr>" Out]
    executeTimeline_parameters [of
      "\<lparr> kept = Some (replicate 2000 (str ''a'')), removed = Some (replicate 5 (str ''b'')),
         added = Some (replicate 999 (str ''c'')), morphed = () \<rparr>" Out]
  by simp

text \<open>The same values, computed from the definitions.\<close>

lemma executeTimeline_examples:
  "durationMultiplier (executeTimeline
      \<lparr> kept = Some [a, b], removed = None, added = Some [c], morphed = () \<rparr> Out) = 3 / 10
   \<and> \<not> isLargeTransition \<lparr> kept = Some [a, b], removed = None, added = Some [c], morphed = () \<rparr>
   \<and> isLargeTransition \<lparr> kept = Some (replicate 2000 a), removed = None,
                          added = Some (replicate 1000 c), morphed = () \<rparr>
   \<and> executeTimeline \<lparr> kept = Some (replicate 2000 a), removed = None,
                        added = Some (replicate 1000 c), morphed = () \<rparr> Out
       = \<lparr> addedSamplingRate = 1, keptSamplingRate = 7 / 10, totalAnimatedWords = 3000,
           durationMultiplier = 1, adjustedStaggerAmount = 4 / 10 \<rparr>
   \<and> executeTimeline \<lparr> kept = Some (replicate 2000 a), removed = None,
                        added = Some (replicate 1000 c), morphed = () \<rparr> In
       = \<lparr> addedSamplingRate = 1 / 2, keptSamplingRate = 0, totalAnimatedWords = 3000,
           durationMultiplier = 1, adjustedStaggerAmount = 4 / 10 \<rparr>
   \<and> durationMultiplier (executeTimeline
      \<lparr> kept = Some (replicate 30 a), removed = Some (replicate 10 b),
        added = Some (replicate 10 c), morphed = () \<rparr> In) = 1 / 2"
  by (simp add: executeTimeline_def isLargeTransition_def lengthOrZero_def Let_def
        largeTransitionThreshold_def samplingRate_large_def stagger_amount_def
        split: prod.splits)

section \<open>Properties of the selection of words to remove\<close>

lemma pow2_powr: "pow2 e = 2 powr (real_of_int e)"
proof (cases "0 \<le> e")
  case True
  then have "2 powr real_of_int e = 2 powr real (nat e)" by simp
  also have "\<dots> = 2 ^ nat e" by (simp add: powr_realpow)
  finally show ?thesis using True by (simp add: pow2_def)
next
  case False
  then have "2 powr real_of_int e = 2 powr (- real (nat (- e)))" by simp
  also have "\<dots> = 1 / 2 powr real (nat (- e))" by (simp add: powr_minus divide_inverse)
  also have "\<dots> = 1 / 2 ^ nat (- e)" by (simp add: powr_realpow)
  finally show ?thesis using False by (simp add: pow2_def)
qed

lemma pow2_pos: "0 < pow2 e"
  by (simp add: pow2_powr)

lemma pow2_add: "pow2 (a + b) = pow2 a * pow2 b"
  by (simp add: pow2_powr powr_add)

lemma pow2_nat: "pow2 (int k) = 2 ^ k"
  by (simp add: pow2_def)


lemma bitLength_rec: "bitLength n = (if n = 0 then 0 else Suc (bitLength (n div 2)))"
  by (cases n) simp_all

lemma bitLength_less: "a < 2 ^ bitLength a"
proof (induction a rule: less_induct)
  case (less n)
  show ?case
  proof (cases "n = 0")
    case True
    then show ?thesis by simp
  next
    case False
    then have "n div 2 < n" by simp
    then have "n div 2 < 2 ^ bitLength (n div 2)" by (rule less.IH)
    then have "n < 2 * 2 ^ bitLength (n div 2)" by linarith
    moreover have "bitLength n = Suc (bitLength (n div 2))"
      using False by (subst bitLength_rec) simp
    ultimately show ?thesis by simp
  qed
qed




lemma roundQuotient_unfold:
  fixes a k :: nat
  defines "q \<equiv> a div 2 ^ k" and "r \<equiv> a mod 2 ^ k" and "P \<equiv> (2::nat) ^ k"
  shows "a = q * P + r \<and> r < P \<and> 0 < P
         \<and> roundQuotient a k = (if 2 * r > P \<or> (2 * r = P \<and> odd q) then q + 1 else q)"
proof -
  have 1: "a = q * P + r" unfolding q_def r_def P_def by (rule div_mult_mod_eq [symmetric])
  have 3: "0 < P" unfolding P_def by simp
  have 2: "r < P" unfolding r_def P_def by simp
  have 4: "roundQuotient a k = (if 2 * r > P \<or> (2 * r = P \<and> odd q) then q + 1 else q)"
    unfolding q_def r_def P_def roundQuotient_def Let_def by (rule refl)
  show ?thesis by (rule conjI [OF 1 conjI [OF 2 conjI [OF 3 4]]])
qed

lemma roundQuotient_cases:
  "roundQuotient a k = a div 2 ^ k
   \<or> (roundQuotient a k = a div 2 ^ k + 1 \<and> 0 < a mod 2 ^ k \<and> 2 ^ k \<le> 2 * (a mod 2 ^ k))"
proof -
  define q r P where "q = a div 2 ^ k" and "r = a mod 2 ^ k" and "P = (2::nat) ^ k"
  from roundQuotient_unfold [of a k]
  have P: "0 < P" and rq: "roundQuotient a k = (if 2 * r > P \<or> (2 * r = P \<and> odd q) then q + 1 else q)"
    by (simp_all only: q_def r_def P_def)
  have "roundQuotient a k = q \<or> (roundQuotient a k = q + 1 \<and> 0 < r \<and> P \<le> 2 * r)"
  proof (cases "2 * r > P \<or> (2 * r = P \<and> odd q)")
    case True
    then have h: "P \<le> 2 * r" by linarith
    from h P have r: "0 < r" by linarith
    have "roundQuotient a k = q + 1" by (simp only: rq True if_True)
    with h r show ?thesis by blast
  next
    case False
    have "roundQuotient a k = q" by (simp only: rq False if_False)
    then show ?thesis by blast
  qed
  then show ?thesis by (simp only: q_def r_def P_def)
qed

lemma roundQuotient_error:
  "2 * (roundQuotient a k * 2 ^ k) \<le> 2 * a + 2 ^ k \<and> 2 * a \<le> 2 * (roundQuotient a k * 2 ^ k) + 2 ^ k"
proof -
  define q r P where "q = a div 2 ^ k" and "r = a mod 2 ^ k" and "P = (2::nat) ^ k"
  define X where "X = q * P"
  from roundQuotient_unfold [of a k]
  have a: "a = X + r" and r: "r < P"
    and rq: "roundQuotient a k = (if 2 * r > P \<or> (2 * r = P \<and> odd q) then q + 1 else q)"
    by (simp_all only: q_def r_def P_def X_def)
  have "2 * (roundQuotient a k * P) \<le> 2 * a + P \<and> 2 * a \<le> 2 * (roundQuotient a k * P) + P"
  proof (cases "2 * r > P \<or> (2 * r = P \<and> odd q)")
    case True
    then have h: "P \<le> 2 * r" by linarith
    have q1: "roundQuotient a k = q + 1" by (simp only: rq True if_True)
    have e: "(q + 1) * P = X + P" by (simp add: algebra_simps X_def)
    show ?thesis unfolding q1 e using a r h by auto
  next
    case False
    then have h: "2 * r \<le> P" by linarith
    have q0: "roundQuotient a k = q" by (simp only: rq False if_False)
    show ?thesis unfolding q0 X_def [symmetric] using a h by auto
  qed
  then show ?thesis by (simp only: P_def)
qed






text \<open>
  The rounded magnitude has at most 53 binary digits, or is the power of two after them,
  and it is within half a unit of the last of these digits of the exact magnitude.
\<close>

lemma roundQuotient_digits: "roundQuotient a (bitLength a - 53) \<le> 2 ^ 53"
proof -
  define k where "k = bitLength a - 53"
  have "bitLength a \<le> 53 + k" by (simp add: k_def)
  then have "(2::nat) ^ bitLength a \<le> 2 ^ (53 + k)" by (simp only: power_increasing_iff one_less_numeral_iff semiring_norm)
  with bitLength_less [of a] have "a < 2 ^ 53 * 2 ^ k" by (simp add: power_add)
  then have "a div 2 ^ k < 2 ^ 53" by (simp add: less_mult_imp_div_less)
  with roundQuotient_cases [of a k] have "roundQuotient a k \<le> 2 ^ 53" by linarith
  then show ?thesis by (simp only: k_def)
qed

lemma roundedMagnitude_half_unit:
  "2 * \<bar>roundedMagnitude a e - real a * pow2 e\<bar> \<le> pow2 (e + int (bitLength a - 53))"
proof -
  define k where "k = bitLength a - 53"
  define q where "q = roundQuotient a k"
  have rm: "roundedMagnitude a e = real q * pow2 (e + int k)"
    by (simp add: roundedMagnitude_def Let_def k_def q_def)
  have split: "pow2 (e + int k) = pow2 e * 2 ^ k"
    by (simp add: pow2_add pow2_nat)
  from roundQuotient_error [of a k]
  have 1: "2 * (q * 2 ^ k) \<le> 2 * a + 2 ^ k" and 2: "2 * a \<le> 2 * (q * 2 ^ k) + 2 ^ k"
    by (simp_all only: q_def)
  have r1: "2 * (real q * 2 ^ k) \<le> 2 * real a + 2 ^ k"
  proof -
    have "real (2 * (q * 2 ^ k)) \<le> real (2 * a + 2 ^ k)" using 1 by (rule iffD2 [OF of_nat_le_iff])
    then show ?thesis by simp
  qed
  have r2: "2 * real a \<le> 2 * (real q * 2 ^ k) + 2 ^ k"
  proof -
    have "real (2 * a) \<le> real (2 * (q * 2 ^ k) + 2 ^ k)" using 2 by (rule iffD2 [OF of_nat_le_iff])
    then show ?thesis by simp
  qed
  have "2 * \<bar>real q * 2 ^ k - real a\<bar> \<le> 2 ^ k"
  proof -
    define X :: real where "X = real q * 2 ^ k"
    define P :: real where "P = 2 ^ k"
    have "2 * X \<le> 2 * real a + P" and "2 * real a \<le> 2 * X + P"
      using r1 r2 by (simp_all only: X_def P_def)
    then have "2 * \<bar>X - real a\<bar> \<le> P" by (simp add: abs_if)
    then show ?thesis by (simp only: X_def P_def)
  qed
  then have "(2 * \<bar>real q * 2 ^ k - real a\<bar>) * pow2 e \<le> 2 ^ k * pow2 e"
    using pow2_pos [of e] by (simp only: mult_le_cancel_right_pos)
  moreover have "(2 * \<bar>real q * 2 ^ k - real a\<bar>) * pow2 e
                 = 2 * \<bar>real q * pow2 (e + int k) - real a * pow2 e\<bar>"
  proof -
    have "\<bar>real q * 2 ^ k - real a\<bar> * pow2 e = \<bar>(real q * 2 ^ k - real a) * pow2 e\<bar>"
      using pow2_pos [of e] by (simp add: abs_mult)
    also have "(real q * 2 ^ k - real a) * pow2 e = real q * pow2 (e + int k) - real a * pow2 e"
      by (simp add: split algebra_simps)
    finally show ?thesis by simp
  qed
  ultimately have "2 * \<bar>real q * pow2 (e + int k) - real a * pow2 e\<bar> \<le> pow2 (e + int k)"
    by (simp add: split mult.commute)
  then show ?thesis by (simp only: rm k_def)
qed














text \<open>Ninety words at 0.7: the product rounds to a little less than 63, and 28 words go.\<close>

lemma selectWordsToRemove_example_90:
  "lengthTimes 90 (Double 6305039478318694 (- 53))
     = Fin (8866461766385663 / 140737488355328)
   \<and> length (toRemove (selectWordsToRemove (replicate 90 w) (Double 6305039478318694 (- 53)))) = 28
   \<and> length (toKeep (selectWordsToRemove (replicate 90 w) (Double 6305039478318694 (- 53)))) = 62"
proof -
  have bl: "bitLength 567453553048682460 = 59 \<and> bitLength 28 = 5"
    by (simp add: bitLength_rec)
  have rm: "roundedMagnitude 567453553048682460 (- 53) = 8866461766385663 / 140737488355328
            \<and> roundedMagnitude 28 0 = 28"
    by (simp add: roundedMagnitude_def roundQuotient_def Let_def bl pow2_def)
  have lt: "lengthTimes 90 (Double 6305039478318694 (- 53))
            = Fin (8866461766385663 / 140737488355328)"
    by (simp add: roundToDouble_def rm)
  have lm: "lengthMinus 90 (Math_floor (Fin (8866461766385663 / 140737488355328))) = Fin 28"
    by (simp add: roundToDouble_def rm)
  have l90: "length (replicate 90 w) = 90" by simp
  have i0: "sliceIndex 90 (Fin 0) = 0" by (simp add: sliceIndex_def)
  have i28: "sliceIndex 90 (Fin 28) = 28" by (simp add: sliceIndex_def)
  have s: "selectWordsToRemove (replicate 90 w) (Double 6305039478318694 (- 53))
           = \<lparr> toKeep = drop 28 (replicate 90 w),
               toRemove = take (28 - 0) (drop 0 (replicate 90 w)) \<rparr>"
    unfolding selectWordsToRemove_def Let_def slice_def slice_from_def l90 lt lm i0 i28
    by (rule refl)
  have r: "length (toRemove (selectWordsToRemove (replicate 90 w)
             (Double 6305039478318694 (- 53)))) = 28"
    unfolding s by simp
  have k: "length (toKeep (selectWordsToRemove (replicate 90 w)
             (Double 6305039478318694 (- 53)))) = 62"
    unfolding s by simp
  show ?thesis by (rule conjI [OF lt conjI [OF r k]])
qed



section \<open>Properties of the pinch mapping\<close>

lemma rawLevel_Fin:
  "rawLevel (Fin s) = Fin (3 * (1 - (max (1 / 2) (min 2 s) - 1 / 2) / (3 / 2)))"
  by (simp add: rawLevel_def Let_def jsmax_def jsmin_def jssub_def minScale_def maxScale_def
        max_def min_def)

lemma scaleToLevel_Fin:
  "scaleToLevel st (Fin s) =
     (let r = 3 * (1 - (max (1 / 2) (min 2 s) - 1 / 2) / (3 / 2))
      in if \<bar>r - of_int (getLevel st)\<bar> \<ge> 15 / 100 then Fin (of_int \<lfloor>r + 1 / 2\<rfloor>)
         else Fin (of_int (getLevel st)))"
  by (simp add: scaleToLevel_def rawLevel_Fin Let_def jssub_def jsge_def jsle_def threshold_def
        not_less)

lemma int_near_zero: "\<bar>real_of_int c\<bar> < 15 / 100 \<Longrightarrow> c = 0"
  by linarith

text \<open>
  C6, as the code has it. Whatever the current level: scale 2.0 maps to level 0 and scale
  0.5 to level 3; scale 1.25 has the raw level 1.5 and maps to level 2, the half being
  rounded upwards; and a scale whose raw level differs from the current level by less than
  the threshold 0.15 maps to the current level.
\<close>

theorem scaleToLevel_mapping:
  "scaleToLevel st (Fin 2) = Fin 0
   \<and> scaleToLevel st (Fin (1 / 2)) = Fin 3
   \<and> rawLevel (Fin (5 / 4)) = Fin (3 / 2)
   \<and> scaleToLevel st (Fin (5 / 4)) = Fin 2
   \<and> (\<forall>s. \<bar>3 * (1 - (max (1 / 2) (min 2 s) - 1 / 2) / (3 / 2)) - of_int (getLevel st)\<bar> < 15 / 100
          \<longrightarrow> scaleToLevel st (Fin s) = Fin (of_int (getLevel st)))"
proof -
  have a: "scaleToLevel st (Fin 2) = Fin 0"
  proof (cases "\<bar>real_of_int (getLevel st)\<bar> < 15 / 100")
    case True
    then have "getLevel st = 0" by (rule int_near_zero)
    then show ?thesis by (simp add: scaleToLevel_Fin)
  next
    case False
    then show ?thesis by (simp add: scaleToLevel_Fin)
  qed
  have b: "scaleToLevel st (Fin (1 / 2)) = Fin 3"
  proof (cases "\<bar>real_of_int (getLevel st - 3)\<bar> < 15 / 100")
    case True
    then have "getLevel st - 3 = 0" by (rule int_near_zero)
    then have "getLevel st = 3" by simp
    then show ?thesis by (simp add: scaleToLevel_Fin)
  next
    case False
    then have "\<bar>3 - real_of_int (getLevel st)\<bar> \<ge> 15 / 100" by (simp add: abs_minus_commute)
    then show ?thesis by (simp add: scaleToLevel_Fin)
  qed
  have r: "rawLevel (Fin (5 / 4)) = Fin (3 / 2)"
    by (simp add: rawLevel_Fin)
  have "\<bar>3 / 2 - real_of_int (getLevel st)\<bar> \<ge> 1 / 2"
  proof (cases "getLevel st \<le> 1")
    case True
    then have "real_of_int (getLevel st) \<le> 1" by simp
    then show ?thesis by linarith
  next
    case False
    then have "2 \<le> getLevel st" by simp
    then have "2 \<le> real_of_int (getLevel st)" by simp
    then show ?thesis by linarith
  qed
  then have "\<bar>3 / 2 - real_of_int (getLevel st)\<bar> \<ge> 15 / 100"
    by linarith
  then have c: "scaleToLevel st (Fin (5 / 4)) = Fin 2"
    by (simp add: scaleToLevel_Fin)
  have d: "\<forall>s. \<bar>3 * (1 - (max (1 / 2) (min 2 s) - 1 / 2) / (3 / 2)) - of_int (getLevel st)\<bar> < 15 / 100
          \<longrightarrow> scaleToLevel st (Fin s) = Fin (of_int (getLevel st))"
    by (simp add: scaleToLevel_Fin Let_def)
  from a b r c d show ?thesis by (intro conjI)
qed

theorem scaleToLevel_mapping_witness:
  "\<bar>3 * (1 - (max (1 / 2) (min 2 (39 / 20)) - 1 / 2) / (3 / 2)) - of_int (getLevel initialState)\<bar>
     < (15 / 100 :: real)
   \<and> scaleToLevel initialState (Fin (39 / 20)) = Fin (of_int (getLevel initialState))
   \<and> scaleToLevel initialState (Fin 2) = Fin 0"
proof -
  have h: "\<bar>3 * (1 - (max (1 / 2) (min 2 (39 / 20)) - 1 / 2) / (3 / 2))
             - of_int (getLevel initialState)\<bar> < (15 / 100 :: real)"
    by (simp add: getLevel_def initialState_def)
  from scaleToLevel_mapping [of initialState]
  have "scaleToLevel initialState (Fin (39 / 20)) = Fin (of_int (getLevel initialState))"
    and "scaleToLevel initialState (Fin 2) = Fin 0"
    using h by blast+
  with h show ?thesis by blast
qed

text \<open>
  The claim as stated fails at scale 1.25: a reader at level 1 is moved to level 2, a whole
  level away from 1.
\<close>

theorem scaleToLevel_intermediate_counterexample:
  "scaleToLevel (initialState\<lparr> currentLevel := 1 \<rparr>) (Fin (5 / 4)) = Fin 2
   \<and> scaleToLevel (initialState\<lparr> currentLevel := 1 \<rparr>) (Fin (5 / 4)) \<noteq> Fin 1"
  by (simp add: scaleToLevel_Fin getLevel_def initialState_def)

section \<open>Properties of the state manager\<close>

lemmas parseInt_eval = parseInt_def parseDigits_def digitValue_def isWhiteSpace_def str_def
  Let_def

lemma parseInt_examples:
  "parseInt (str ''2'') = Some 2 \<and> parseInt (str '' 0x3'') = Some 3
   \<and> parseInt (str ''3.9'') = Some 3 \<and> parseInt (str ''-1'') = Some (- 1)
   \<and> parseInt (str ''12'') = Some 12 \<and> parseInt (str ''abc'') = None \<and> parseInt [] = None"
  by (simp add: parseInt_eval)

text \<open>
  C10. \<open>setLevel\<close> returns true exactly when its argument parses to one of the levels 0
  to 3 other than the current one. Then the current level becomes that level and one
  notification of the level change is made, with the old and the new level, to the
  listeners registered for it; nothing else of the state changes. Otherwise it returns
  false and the state is as it was.
\<close>

theorem setLevel_result:
  "(fst (setLevel level st) \<longleftrightarrow> (\<exists>n. validNewLevel level st n))
   \<and> (\<forall>n. validNewLevel level st n \<longrightarrow>
          snd (setLevel level st)
            = st\<lparr> currentLevel := n,
                  notifications := notifications st
                    @ [(EvLevelChange, LevelChangeData (currentLevel st) n,
                        levelChange (listeners st))] \<rparr>)
   \<and> (\<not> (\<exists>n. validNewLevel level st n) \<longrightarrow> setLevel level st = (False, st))"
  by (auto simp: setLevel_def validNewLevel_def notifyListeners_def listenersOf_def Let_def
        split: option.splits)

theorem setLevel_result_witness:
  "validNewLevel (str ''2'') initialState 2
   \<and> fst (setLevel (str ''2'') initialState)
   \<and> snd (setLevel (str ''2'') initialState)
       = initialState\<lparr> currentLevel := 2,
           notifications := [(EvLevelChange, LevelChangeData 0 2, [])] \<rparr>
   \<and> \<not> (\<exists>n. validNewLevel (str ''7'') initialState n)
   \<and> setLevel (str ''7'') initialState = (False, initialState)
   \<and> \<not> (\<exists>n. validNewLevel (str ''0'') initialState n)
   \<and> setLevel (str ''0'') initialState = (False, initialState)"
proof -
  have v: "validNewLevel (str ''2'') initialState 2"
    by (simp add: validNewLevel_def parseInt_eval initialState_def)
  have n7: "\<not> (\<exists>n. validNewLevel (str ''7'') initialState n)"
    by (simp add: validNewLevel_def parseInt_eval)
  have n0: "\<not> (\<exists>n. validNewLevel (str ''0'') initialState n)"
    by (simp add: validNewLevel_def parseInt_eval initialState_def)
  have a: "fst (setLevel (str ''2'') initialState)"
    using v setLevel_result [of "str ''2''" initialState] by blast
  have "snd (setLevel (str ''2'') initialState)
          = initialState\<lparr> currentLevel := 2,
              notifications := notifications initialState
                @ [(EvLevelChange, LevelChangeData (currentLevel initialState) 2,
                    levelChange (listeners initialState))] \<rparr>"
    using v setLevel_result [of "str ''2''" initialState] by blast
  then have b: "snd (setLevel (str ''2'') initialState)
                  = initialState\<lparr> currentLevel := 2,
                      notifications := [(EvLevelChange, LevelChangeData 0 2, [])] \<rparr>"
    by (simp add: initialState_def)
  have c: "setLevel (str ''7'') initialState = (False, initialState)"
    using n7 setLevel_result [of "str ''7''" initialState] by blast
  have d: "setLevel (str ''0'') initialState = (False, initialState)"
    using n0 setLevel_result [of "str ''0''" initialState] by blast
  from v a b n7 c n0 d show ?thesis by (intro conjI)
qed

section \<open>Properties of the degenerate-input guards\<close>

lemma finite_num_iff: "finite_num x \<longleftrightarrow> (\<exists>r. x = Fin r)"
  by (cases x) (simp_all add: finite_num_def)

lemma calculateLocationScore_guard: "n \<le> 1 \<Longrightarrow> calculateLocationScore p n = Fin 1"
  by (simp add: calculateLocationScore_def)

lemma calculateLocationScore_value:
  "calculateLocationScore p n = (if n \<le> 1 then Fin 1 else Fin (1 - p / n))"
  by (simp add: calculateLocationScore_def jssub_def)

lemma calculateLocationScore_finite: "finite_num (calculateLocationScore p n)"
  by (simp add: calculateLocationScore_value finite_num_def)

lemma calculateTF_finite: "finite_num (calculateTF w ws)"
  by (simp add: calculateTF_def Let_def finite_num_def)

lemma calculateIDF_guard:
  "\<forall>doc \<in> set documents. w \<notin> set doc \<Longrightarrow> calculateIDF w documents = Fin 0"
  by (simp add: calculateIDF_def Let_def)

lemma calculateIDF_finite: "finite_num (calculateIDF w documents)"
proof (cases "length (filter (\<lambda>doc. w \<in> set doc) documents) = 0")
  case True
  then show ?thesis by (simp add: calculateIDF_def Let_def finite_num_def)
next
  case False
  let ?d = "length (filter (\<lambda>doc. w \<in> set doc) documents)"
  have d: "0 < ?d" using False by simp
  have "?d \<le> length documents" by (rule length_filter_le)
  with d have t: "0 < length documents" by linarith
  have q: "0 < real (length documents) / real ?d" using d t by simp
  have "calculateIDF w documents = Math_log (Fin (real (length documents) / real ?d))"
    using d by (simp add: calculateIDF_def Let_def)
  with q show ?thesis by (simp add: finite_num_def)
qed

lemma foldl_jsmax_const:
  "\<forall>x \<in> set xs. x = Fin c \<Longrightarrow> a = NegInf \<or> a = Fin c \<Longrightarrow> xs \<noteq> [] \<Longrightarrow>
     foldl jsmax a xs = Fin c"
proof (induction xs arbitrary: a)
  case Nil
  then show ?case by simp
next
  case (Cons x xs)
  then have x: "x = Fin c" by simp
  have s: "jsmax a x = Fin c" using Cons.prems(2) x by (auto simp: jsmax_def)
  show ?case
  proof (cases "xs = []")
    case True
    then show ?thesis using s by simp
  next
    case False
    then show ?thesis using Cons.IH [of "jsmax a x"] Cons.prems(1) s by simp
  qed
qed

lemma foldl_jsmin_const:
  "\<forall>x \<in> set xs. x = Fin c \<Longrightarrow> a = PosInf \<or> a = Fin c \<Longrightarrow> xs \<noteq> [] \<Longrightarrow>
     foldl jsmin a xs = Fin c"
proof (induction xs arbitrary: a)
  case Nil
  then show ?case by simp
next
  case (Cons x xs)
  then have x: "x = Fin c" by simp
  have s: "jsmin a x = Fin c" using Cons.prems(2) x by (auto simp: jsmin_def)
  show ?case
  proof (cases "xs = []")
    case True
    then show ?thesis using s by simp
  next
    case False
    then show ?thesis using Cons.IH [of "jsmin a x"] Cons.prems(1) s by simp
  qed
qed

lemma foldl_jsmax_finite:
  "\<forall>x \<in> set xs. finite_num x \<Longrightarrow> a = NegInf \<or> finite_num a \<Longrightarrow> xs \<noteq> [] \<Longrightarrow>
     finite_num (foldl jsmax a xs)"
proof (induction xs arbitrary: a)
  case Nil
  then show ?case by simp
next
  case (Cons x xs)
  then obtain r where x: "x = Fin r" by (auto simp: finite_num_iff)
  have s: "finite_num (jsmax a x)"
    using Cons.prems(2) x by (auto simp: jsmax_def finite_num_iff)
  show ?case
  proof (cases "xs = []")
    case True
    then show ?thesis using s by simp
  next
    case False
    then show ?thesis using Cons.IH [of "jsmax a x"] Cons.prems(1) s by simp
  qed
qed

lemma foldl_jsmin_finite:
  "\<forall>x \<in> set xs. finite_num x \<Longrightarrow> a = PosInf \<or> finite_num a \<Longrightarrow> xs \<noteq> [] \<Longrightarrow>
     finite_num (foldl jsmin a xs)"
proof (induction xs arbitrary: a)
  case Nil
  then show ?case by simp
next
  case (Cons x xs)
  then obtain r where x: "x = Fin r" by (auto simp: finite_num_iff)
  have s: "finite_num (jsmin a x)"
    using Cons.prems(2) x by (auto simp: jsmin_def finite_num_iff)
  show ?case
  proof (cases "xs = []")
    case True
    then show ?thesis using s by simp
  next
    case False
    then show ?thesis using Cons.IH [of "jsmin a x"] Cons.prems(1) s by simp
  qed
qed

lemma normalizeTFIDF_equal:
  assumes "\<forall>x \<in> set m. tfidf (snd x) = Fin c"
  shows "\<forall>x \<in> set (normalizeTFIDF m). normalizedTfidf (snd x) = Some (Fin (1 / 2))"
proof (cases "m = []")
  case True
  then show ?thesis by (simp add: normalizeTFIDF_def Let_def)
next
  case False
  let ?scores = "map (\<lambda>(k, item). tfidf item) m"
  have all: "\<forall>x \<in> set ?scores. x = Fin c" using assms by auto
  have ne: "?scores \<noteq> []" using False by simp
  have mx: "Math_max ?scores = Fin c"
    unfolding Math_max_def using all _ ne by (rule foldl_jsmax_const) simp
  have mn: "Math_min ?scores = Fin c"
    unfolding Math_min_def using all _ ne by (rule foldl_jsmin_const) simp
  have "jseq (jssub (Math_max ?scores) (Math_min ?scores)) (Fin 0)"
    by (simp add: mx mn jssub_def jseq_def)
  then show ?thesis
    by (auto simp: normalizeTFIDF_def Let_def)
qed

lemma normalizeTFIDF_finite:
  assumes "\<forall>x \<in> set m. finite_num (tfidf (snd x))"
  shows "\<forall>x \<in> set (normalizeTFIDF m). \<exists>r. normalizedTfidf (snd x) = Some (Fin r)"
proof (cases "m = []")
  case True
  then show ?thesis by (simp add: normalizeTFIDF_def Let_def)
next
  case False
  let ?scores = "map (\<lambda>(k, item). tfidf item) m"
  have all: "\<forall>x \<in> set ?scores. finite_num x" using assms by auto
  have ne: "?scores \<noteq> []" using False by simp
  have "finite_num (Math_max ?scores)"
    unfolding Math_max_def using all _ ne by (rule foldl_jsmax_finite) simp
  then obtain mx where mx: "Math_max ?scores = Fin mx" by (auto simp: finite_num_iff)
  have "finite_num (Math_min ?scores)"
    unfolding Math_min_def using all _ ne by (rule foldl_jsmin_finite) simp
  then obtain mn where mn: "Math_min ?scores = Fin mn" by (auto simp: finite_num_iff)
  show ?thesis
  proof
    fix x assume x: "x \<in> set (normalizeTFIDF m)"
    show "\<exists>r. normalizedTfidf (snd x) = Some (Fin r)"
    proof (cases "mx - mn = 0")
      case True
      then have "jseq (jssub (Math_max ?scores) (Math_min ?scores)) (Fin 0)"
        by (simp add: mx mn jssub_def jseq_def)
      with x have "normalizedTfidf (snd x) = Some (Fin (1 / 2))"
        by (auto simp: normalizeTFIDF_def Let_def)
      then show ?thesis by blast
    next
      case False
      then have nz: "\<not> jseq (jssub (Math_max ?scores) (Math_min ?scores)) (Fin 0)"
        by (simp add: mx mn jssub_def jseq_def)
      from x nz obtain k item where ki: "(k, item) \<in> set m"
        and xe: "x = (k, item\<lparr> normalizedTfidf :=
                       Some (jsdiv (jssub (tfidf item) (Fin mn)) (Fin (mx - mn))) \<rparr>)"
        by (auto simp: normalizeTFIDF_def Let_def mx mn jssub_def)
      from ki assms obtain t where t: "tfidf item = Fin t" by (force simp: finite_num_iff)
      show ?thesis using xe t False by (simp add: jssub_def)
    qed
  qed
qed

lemma computeTFIDFForText_finite:
  "\<forall>x \<in> set (computeTFIDFForText lower wordTok t removeStopwords minWordLength).
      finite_num (tfidf (snd x))"
proof -
  have m: "\<And>a b. finite_num a \<Longrightarrow> finite_num b \<Longrightarrow> finite_num (jsmul a b)"
    by (auto simp: finite_num_iff)
  show ?thesis
    by (auto simp: computeTFIDFForText_def Let_def intro!: m calculateTF_finite calculateIDF_finite)
qed

text \<open>
  C7. When all raw scores are equal, \<open>normalizeTFIDF\<close> sets every normalized score to 0.5;
  \<open>calculateIDF\<close> is 0 for a word that no document contains; \<open>calculateLocationScore\<close> is
  1.0 for a sentence length of at most 1. None of the scoring functions gives \<open>NaN\<close> or an
  infinity: the location score, the inverse document frequency and the term frequency are
  finite for every input, also for an empty word list and an empty document list, and the
  normalized scores are finite whenever the raw scores are, as those of
  \<open>computeTFIDFForText\<close> always are.
\<close>

theorem degenerate_input_guards:
  "((\<forall>x \<in> set m. tfidf (snd x) = Fin c)
      \<longrightarrow> (\<forall>x \<in> set (normalizeTFIDF m). normalizedTfidf (snd x) = Some (Fin (1 / 2))))
   \<and> ((\<forall>doc \<in> set documents. w \<notin> set doc) \<longrightarrow> calculateIDF w documents = Fin 0)
   \<and> (n \<le> 1 \<longrightarrow> calculateLocationScore p n = Fin 1)
   \<and> finite_num (calculateLocationScore p n)
   \<and> finite_num (calculateIDF w documents)
   \<and> finite_num (calculateTF w ws)
   \<and> ((\<forall>x \<in> set m. finite_num (tfidf (snd x)))
      \<longrightarrow> (\<forall>x \<in> set (normalizeTFIDF m). \<exists>r. normalizedTfidf (snd x) = Some (Fin r)))
   \<and> (\<forall>x \<in> set (normalizeTFIDF (computeTFIDFForText lower wordTok t removeStopwords minWordLength)).
         \<exists>r. normalizedTfidf (snd x) = Some (Fin r))"
  using normalizeTFIDF_equal [of m c] calculateIDF_guard [of documents w]
    calculateLocationScore_guard [of n p] calculateLocationScore_finite [of p n]
    calculateIDF_finite [of w documents] calculateTF_finite [of w ws]
    normalizeTFIDF_finite [of m]
    normalizeTFIDF_finite [OF computeTFIDFForText_finite,
      of lower wordTok t removeStopwords minWordLength]
  by (intro conjI impI) assumption+

theorem degenerate_input_guards_witness:
  "list_all (\<lambda>x. tfidf (snd x) = Fin (1 / 4)) exampleScores
   \<and> list_all (\<lambda>x. normalizedTfidf (snd x) = Some (Fin (1 / 2))) (normalizeTFIDF exampleScores)
   \<and> length (normalizeTFIDF exampleScores) = 2
   \<and> calculateIDF (str ''cat'') [] = Fin 0
   \<and> calculateIDF (str ''cat'') [[str ''dog'']] = Fin 0
   \<and> calculateLocationScore 0 1 = Fin 1
   \<and> calculateLocationScore 0 0 = Fin 1
   \<and> finite_num (calculateTF (str ''cat'') [])"
proof -
  have h: "\<forall>x \<in> set exampleScores. tfidf (snd x) = Fin (1 / 4)"
    by (simp add: exampleScores_def)
  have d0: "\<forall>doc \<in> set ([] :: jsstring list list). str ''cat'' \<notin> set doc"
    by simp
  have d1: "\<forall>doc \<in> set [[str ''dog'']]. str ''cat'' \<notin> set doc"
    by (simp add: str_def)
  have n: "\<forall>x \<in> set (normalizeTFIDF exampleScores). normalizedTfidf (snd x) = Some (Fin (1 / 2))"
    using h degenerate_input_guards [of exampleScores "1 / 4"] by blast
  have l: "length (normalizeTFIDF exampleScores) = 2"
    by (simp add: normalizeTFIDF_def exampleScores_def Let_def)
  have i0: "calculateIDF (str ''cat'') [] = Fin 0"
    using d0 degenerate_input_guards [where documents = "[]" and w = "str ''cat''"] by blast
  have i1: "calculateIDF (str ''cat'') [[str ''dog'']] = Fin 0"
    using d1 degenerate_input_guards [where documents = "[[str ''dog'']]" and w = "str ''cat''"]
    by blast
  have l1: "calculateLocationScore 0 1 = Fin 1"
    using degenerate_input_guards [where n = 1 and p = 0] by simp
  have l0: "calculateLocationScore 0 0 = Fin 1"
    using degenerate_input_guards [where n = 0 and p = 0] by simp
  have t: "finite_num (calculateTF (str ''cat'') [])"
    using degenerate_input_guards [where w = "str ''cat''" and ws = "[]"] by blast
  from h n l i0 i1 l1 l0 t show ?thesis
    by (simp add: list_all_iff)
qed

section \<open>The location score on the example text\<close>

lemma ex_paragraphs: "parseParagraphs exampleText = [exampleText]"
  by (simp add: parseParagraphs_def exampleText_def str_def trim_def isWhiteSpace_def)

text \<open>
  The structure of the example text: the positions count on over the whole text. The tag
  of a word is what the tagger says of it; the location score does not look at it.
\<close>

lemma ex_words:
  "words (structureText lower exampleSentTok exampleWordTok exampleText) =
     [\<lparr> word_text = str ''Cats'', position = 0, sentence = 0, paragraph_index = 0,
        pos = estimatePOS lower (str ''Cats'') \<rparr>,
      \<lparr> word_text = str ''run'', position = 1, sentence = 0, paragraph_index = 0,
        pos = estimatePOS lower (str ''run'') \<rparr>,
      \<lparr> word_text = str ''Dogs'', position = 2, sentence = 1, paragraph_index = 0,
        pos = estimatePOS lower (str ''Dogs'') \<rparr>,
      \<lparr> word_text = str ''bark'', position = 3, sentence = 1, paragraph_index = 0,
        pos = estimatePOS lower (str ''bark'') \<rparr>]"
  unfolding structureText_def ex_paragraphs
  by (simp add: pushParagraph_def pushSentence_def pushWord_def tokenizeSentences_def
        tokenizeWords_def exampleSentTok_def exampleWordTok_def exampleText_def str_def trim_def
        isWhiteSpace_def Let_def)

lemma ex_pos:
  "estimatePOS asciiLowerCase (str ''Cats'') = NOUN \<and> estimatePOS asciiLowerCase (str ''run'') = NOUN
   \<and> estimatePOS asciiLowerCase (str ''Dogs'') = NOUN \<and> estimatePOS asciiLowerCase (str ''bark'') = NOUN"
  by (simp add: tagger_eval)

lemma ex_tfidf:
  "map (\<lambda>(k, i). (k, tfidf i, normalizedTfidf i))
       (normalizeTFIDF (computeTFIDFForText asciiLowerCase exampleWordTok exampleText True 2)) =
     [(str ''cats'', Fin 0, Some (Fin (1 / 2))), (str ''run'', Fin 0, Some (Fin (1 / 2))),
      (str ''dogs'', Fin 0, Some (Fin (1 / 2))), (str ''bark'', Fin 0, Some (Fin (1 / 2)))]"
  unfolding computeTFIDFForText_def splitIntoDocuments_def ex_paragraphs
  by (simp add: normalizeTFIDF_def tokenizeWords_def exampleWordTok_def exampleText_def str_def
        asciiLowerCase_def new_Set_def set_add_def isStopword_def ALL_STOPWORDS_def
        KOREAN_STOPWORDS_def ENGLISH_STOPWORDS_def calculateTF_def calculateIDF_def
        Math_max_def Math_min_def jsmax_def jsmin_def jssub_def jseq_def Let_def)

text \<open>
  C2 on the code. \<open>calculateWordPriority\<close> gives \<open>calculateLocationScore\<close> the position of
  the word in the whole text, not in its sentence, with the length of the sentence. In the
  example text the first word of the second sentence has position 2 in a sentence of
  length 2: its location score is 0, where one minus its position in the sentence over the
  length is 1, and the score of the word after it is negative. This is so whatever the
  lowercasing.
\<close>

theorem locationScore_uses_global_position:
  "(let ws = enrichWords lower
               (normalizeTFIDF (computeTFIDFForText lower exampleWordTok exampleText True 2))
               (words (structureText lower exampleSentTok exampleWordTok exampleText));
        wordsBySentence = groupBySentence ws
    in map (\<lambda>w. (word_text w, sentence w, position w, length (wordsBySentence (sentence w)),
                  locationScore w (length (wordsBySentence (sentence w))))) ws)
   = [(str ''Cats'', 0, 0, 2, Fin 1), (str ''run'', 0, 1, 2, Fin (1 / 2)),
      (str ''Dogs'', 1, 2, 2, Fin 0), (str ''bark'', 1, 3, 2, Fin (- 1 / 2))]"
  unfolding ex_words
  by (simp add: enrichWords_def groupBySentence_def locationScore_def calculateLocationScore_def
        jssub_def Let_def Word.extend_def)

text \<open>The priorities of the example text, in the order of the result.\<close>

lemma calculatePrioritiesForText_example:
  "map (\<lambda>w. (word_text w, priority w, priorityGroup w))
       (calculatePrioritiesForText asciiLowerCase exampleSentTok exampleWordTok exampleText)
   = [(str ''bark'', Fin (61 / 100), ''late''), (str ''Dogs'', Fin (66 / 100), ''late''),
      (str ''run'', Fin (67 / 100), ''late''), (str ''Cats'', Fin (80 / 100), ''late'')]"
proof -
  have t: "normalizeTFIDF (computeTFIDFForText asciiLowerCase exampleWordTok exampleText True 2) =
     map (\<lambda>k. (k, \<lparr> info_word = k, tf = Fin (1 / 4), idf = Fin 0, tfidf = Fin 0, frequency = 1,
                     normalizedTfidf = Some (Fin (1 / 2)) \<rparr>))
       [str ''cats'', str ''run'', str ''dogs'', str ''bark'']"
    unfolding computeTFIDFForText_def splitIntoDocuments_def ex_paragraphs
    by (simp add: normalizeTFIDF_def tokenizeWords_def exampleWordTok_def exampleText_def str_def
        asciiLowerCase_def new_Set_def set_add_def isStopword_def ALL_STOPWORDS_def
        KOREAN_STOPWORDS_def ENGLISH_STOPWORDS_def calculateTF_def calculateIDF_def
        Math_max_def Math_min_def jsmax_def jsmin_def jssub_def jseq_def Let_def)
  show ?thesis
    unfolding calculatePrioritiesForText_def Let_def t ex_words ex_pos [THEN conjunct1]
      ex_pos [THEN conjunct2, THEN conjunct1] ex_pos [THEN conjunct2, THEN conjunct2, THEN conjunct1]
      ex_pos [THEN conjunct2, THEN conjunct2, THEN conjunct2]
    by (simp add: enrichWords_def groupBySentence_def withPriority_def calculateWordPriority_def
        tfidfScore_def or_zero_def calculatePOSScore_def POS_WEIGHTS_def calculateSyntaxScore_def
        locationScore_def calculateLocationScore_def getPriorityGroup_def sortByPriority_def
        jssub_def jsgt_def jsmax_def jsmin_def Let_def Word.extend_def EnrichedWord.extend_def
        str_def asciiLowerCase_def)
qed

end
